theory Spec2Isabelle
  imports Complex_Main "HOL-Library.Word"
begin

section \<open>Service monitor: data model\<close>

text \<open>
  The monitoring engine of \<^verbatim>\<open>app.js\<close>. JavaScript objects become records,
  exceptions become the left summand of a sum or the error of an effect, and everything
  the code obtains from outside (the clock and the time zone, the outcome of an HTTP
  request, of a send, of a write to a file) is a parameter.

  Timestamps (\<^verbatim>\<open>Date.now()\<close>, \<^verbatim>\<open>new Date().toISOString()\<close>, \<^verbatim>\<open>moment()\<close>) are the
  instants they denote, in milliseconds since the epoch. Strings are sequences of
  bytes, that is their UTF-8 encoding.
\<close>

text \<open>
  The values of a status: the strings \<^verbatim>\<open>'up'\<close>, \<^verbatim>\<open>'down'\<close> and \<^verbatim>\<open>'unknown'\<close>, and
  \<^verbatim>\<open>undefined\<close>, which is what \<^verbatim>\<open>.status\<close> gives on an object without that field.
\<close>

datatype status = Up | Down | Unknown | Undefined

record named =
  name :: string
  url :: string

record service = named +
  timeout :: "nat option"
  expectedStatus :: "nat option"

record check_result = named +
  status :: status
  statusCode :: "nat option"
  responseTime :: "int option"
  lastChecked :: "int option"
  error :: "string option"

text \<open>
  A history entry has the fields \<^verbatim>\<open>timestamp, status, statusCode, responseTime, error\<close>;
  the last four carry the prefix \<open>entry\<close> here, as a record field name denotes one
  selector only.
\<close>

record history_entry =
  timestamp :: "int option"
  entryStatus :: status
  entryStatusCode :: "nat option"
  entryResponseTime :: "int option"
  entryError :: "string option"

subsection \<open>Numbers in template literals\<close>

fun show_nat :: "nat \<Rightarrow> string" where
  "show_nat n =
     (if n < 10 then [char_of (48 + n)]
      else show_nat (n div 10) @ [char_of (48 + n mod 10)])"

declare show_nat.simps [simp del]

section \<open>Checker\<close>

text \<open>
  \<^verbatim>\<open>axios.get\<close> settles in one of two ways, and \<^verbatim>\<open>checkService\<close> sees nothing else
  of the network: the promise is fulfilled with a response, of which only \<^verbatim>\<open>status\<close>
  is read, or it is rejected with an error that has a \<^verbatim>\<open>message\<close> and may carry the
  response (\<^verbatim>\<open>error.response?.status\<close>).
\<close>

datatype axios_error = AxiosError (message: string) (response: "nat option")

text \<open>\<^verbatim>\<open>x || d\<close> on an optional number: \<^verbatim>\<open>undefined\<close> and \<^verbatim>\<open>0\<close> are both falsy.\<close>

definition or_default :: "nat option \<Rightarrow> nat \<Rightarrow> nat" where
  "or_default x d = (case x of None \<Rightarrow> d | Some n \<Rightarrow> if n = 0 then d else n)"

definition or_null :: "nat option \<Rightarrow> nat option" where
  "or_null x = (case x of None \<Rightarrow> None | Some n \<Rightarrow> if n = 0 then None else Some n)"

text \<open>
  \<^verbatim>\<open>checkService(service)\<close>. \<open>outcome\<close> is how \<^verbatim>\<open>axios.get\<close> settled, \<open>startTime\<close>
  and \<open>endTime\<close> are the two readings of \<^verbatim>\<open>Date.now()\<close>, \<open>checkedAt\<close> the instant of
  \<^verbatim>\<open>new Date()\<close>. The \<^verbatim>\<open>try\<close> block is the \<open>Inr\<close> branch, the \<^verbatim>\<open>catch\<close> block the
  \<open>Inl\<close> branch; neither contains a statement that can throw, so the function returns a
  result for every argument.
\<close>

definition checkService ::
  "service \<Rightarrow> axios_error + nat \<Rightarrow> int \<Rightarrow> int \<Rightarrow> int \<Rightarrow> check_result" where
  "checkService service outcome startTime endTime checkedAt =
     (case outcome of
        Inr response_status \<Rightarrow>
          (let responseTime = endTime - startTime;
               isHealthy = (response_status = or_default (expectedStatus service) 200)
           in \<lparr>name = name service, url = url service,
               status = (if isHealthy then Up else Down),
               statusCode = Some response_status,
               responseTime = Some responseTime,
               lastChecked = Some checkedAt,
               error = (if isHealthy then None
                        else Some (''Expected status ''
                                   @ show_nat (or_default (expectedStatus service) 200)
                                   @ '', got '' @ show_nat response_status))\<rparr>)
      | Inl err \<Rightarrow>
          (let responseTime = endTime - startTime
           in \<lparr>name = name service, url = url service,
               status = Down,
               statusCode = or_null (response err),
               responseTime = Some responseTime,
               lastChecked = Some checkedAt,
               error = Some (message err)\<rparr>))"

text \<open>
  What the network delivered to \<^verbatim>\<open>axios\<close>: a final HTTP response with its status
  code, or a transport failure (timeout, DNS, refused connection, TLS) with the
  message of the error.
\<close>

datatype transport = HttpResponse nat | TransportFailure string

text \<open>
  \<^verbatim>\<open>axios.get(url, {timeout, headers})\<close> as the library settles it when, as here, no
  \<^verbatim>\<open>validateStatus\<close> option is passed: the default accepts the status codes from 200
  to 299 and rejects every other response with the message
  \<^verbatim>\<open>Request failed with status code <n>\<close> and the response attached to the error.
  The library is not part of the repository; this is its documented default.
\<close>

definition axios_get :: "transport \<Rightarrow> axios_error + nat" where
  "axios_get t =
     (case t of
        HttpResponse s \<Rightarrow>
          if 200 \<le> s \<and> s < 300 then Inr s
          else Inl (AxiosError (''Request failed with status code '' @ show_nat s) (Some s))
      | TransportFailure msg \<Rightarrow> Inl (AxiosError msg None))"

section \<open>Credential vault\<close>

text \<open>
  \<^verbatim>\<open>encrypt\<close> and \<^verbatim>\<open>decrypt\<close> call Node's \<^verbatim>\<open>crypto\<close> module with the algorithm
  \<^verbatim>\<open>aes-256-cbc\<close>. The mode of operation (cipher block chaining over 16-byte blocks,
  PKCS#7 padding, the checks of \<^verbatim>\<open>createDecipheriv\<close> and \<^verbatim>\<open>final\<close>) and the hex
  encoding of buffers are written out here. The AES block function under the key
  \<^verbatim>\<open>ENCRYPTION_KEY\<close>, drawn at random when the process starts, is a parameter: a pair
  of functions on blocks.
\<close>

type_synonym byte = "8 word"

record block_cipher =
  encrypt_block :: "byte list \<Rightarrow> byte list"
  decrypt_block :: "byte list \<Rightarrow> byte list"

text \<open>
  The errors thrown by \<^verbatim>\<open>crypto\<close>: by \<^verbatim>\<open>createDecipheriv\<close> for an initialization
  vector of the wrong length, by \<^verbatim>\<open>update\<close> for hex input of odd length, by
  \<^verbatim>\<open>final\<close> for data that is not whole blocks or does not end in a padding.
\<close>

datatype crypto_error = InvalidIV | InvalidHexLength | WrongFinalBlockLength | BadDecrypt

subsection \<open>Buffers and strings\<close>

definition hex_digit :: "nat \<Rightarrow> char" where
  "hex_digit n = (if n < 10 then char_of (48 + n) else char_of (87 + n))"

definition hex_value :: "char \<Rightarrow> nat option" where
  "hex_value c =
     (let k = (of_char c :: nat)
      in if 48 \<le> k \<and> k \<le> 57 then Some (k - 48)
         else if 97 \<le> k \<and> k \<le> 102 then Some (k - 87)
         else if 65 \<le> k \<and> k \<le> 70 then Some (k - 55)
         else None)"

text \<open>\<^verbatim>\<open>buffer.toString('hex')\<close>: two lower-case digits for each byte.\<close>

fun toHex :: "byte list \<Rightarrow> string" where
  "toHex [] = []"
| "toHex (b # bs) = hex_digit (unat b div 16) # hex_digit (unat b mod 16) # toHex bs"

text \<open>
  \<^verbatim>\<open>Buffer.from(s, 'hex')\<close>, also the decoding of the input of
  \<^verbatim>\<open>decipher.update(s, 'hex', ...)\<close> once its length has been checked: pairs of hex
  digits are decoded up to the first pair that is not one, and the rest is dropped
  without an error.
\<close>

fun fromHex :: "string \<Rightarrow> byte list" where
  "fromHex (a # b # rest) =
     (case hex_value a of
        None \<Rightarrow> []
      | Some h \<Rightarrow>
          (case hex_value b of
             None \<Rightarrow> []
           | Some l \<Rightarrow> of_nat (16 * h + l) # fromHex rest))"
| "fromHex _ = []"

text \<open>The encoding \<^verbatim>\<open>'utf8'\<close> between a string and a buffer: the bytes of the string.\<close>

definition utf8_bytes :: "string \<Rightarrow> byte list" where
  "utf8_bytes s = map (\<lambda>c. of_nat (of_char c)) s"

definition utf8_string :: "byte list \<Rightarrow> string" where
  "utf8_string bs = map (\<lambda>b. char_of (unat b)) bs"

subsection \<open>Cipher block chaining with PKCS#7 padding\<close>

definition xor_block :: "byte list \<Rightarrow> byte list \<Rightarrow> byte list" where
  "xor_block xs ys = map (\<lambda>(x, y). xor x y) (zip xs ys)"

definition pkcs7_pad :: "byte list \<Rightarrow> byte list" where
  "pkcs7_pad bs =
     bs @ replicate (16 - length bs mod 16) (of_nat (16 - length bs mod 16))"

text \<open>
  \<^verbatim>\<open>decipher.final()\<close> on the decrypted blocks: the last byte is the length of the
  padding, between 1 and 16, and each byte of the padding has that value.
\<close>

definition pkcs7_unpad :: "byte list \<Rightarrow> crypto_error + byte list" where
  "pkcs7_unpad bs =
     (if bs = [] then Inl WrongFinalBlockLength
      else (let n = unat (last bs)
            in if n = 0 \<or> 16 < n \<or> length bs < n then Inl BadDecrypt
               else if list_all (\<lambda>b. b = last bs) (drop (length bs - n) bs)
                    then Inr (take (length bs - n) bs)
                    else Inl BadDecrypt))"

text \<open>
  The data ends in a padding: it is not empty, its last byte is a number from 1 to 16
  and no more than its length, and that many bytes at its end have that value.
\<close>

definition valid_padding :: "byte list \<Rightarrow> bool" where
  "valid_padding bs \<longleftrightarrow>
     bs \<noteq> [] \<and> 1 \<le> unat (last bs) \<and> unat (last bs) \<le> 16 \<and> unat (last bs) \<le> length bs
     \<and> list_all (\<lambda>b. b = last bs) (drop (length bs - unat (last bs)) bs)"

fun cbc_encrypt :: "(byte list \<Rightarrow> byte list) \<Rightarrow> byte list \<Rightarrow> byte list \<Rightarrow> byte list" where
  "cbc_encrypt E prev bs =
     (if bs = [] then []
      else E (xor_block (take 16 bs) prev)
           @ cbc_encrypt E (E (xor_block (take 16 bs) prev)) (drop 16 bs))"

fun cbc_decrypt :: "(byte list \<Rightarrow> byte list) \<Rightarrow> byte list \<Rightarrow> byte list \<Rightarrow> byte list" where
  "cbc_decrypt D prev bs =
     (if bs = [] then []
      else xor_block (D (take 16 bs)) prev @ cbc_decrypt D (take 16 bs) (drop 16 bs))"

declare cbc_encrypt.simps [simp del]
declare cbc_decrypt.simps [simp del]

subsection \<open>The two operations\<close>

text \<open>
  \<^verbatim>\<open>encrypt(text)\<close>; \<open>iv\<close> is the value of \<^verbatim>\<open>crypto.randomBytes(IV_LENGTH)\<close>, 16
  bytes. The empty string is falsy and is returned as it is.
\<close>

definition encrypt :: "block_cipher \<Rightarrow> byte list \<Rightarrow> string \<Rightarrow> string" where
  "encrypt k iv text =
     (if text = [] then text
      else toHex iv @ '':''
           @ toHex (cbc_encrypt (encrypt_block k) iv (pkcs7_pad (utf8_bytes text))))"

text \<open>
  \<^verbatim>\<open>decrypt(text)\<close>. \<^verbatim>\<open>text.split(':')\<close> followed by \<^verbatim>\<open>parts.shift()\<close> and
  \<^verbatim>\<open>parts.join(':')\<close> cuts the text at its first colon. \<^verbatim>\<open>createDecipheriv\<close>
  throws unless the initialization vector has 16 bytes; \<^verbatim>\<open>update\<close> throws when its
  hex input has an odd number of characters (Node 18, the runtime of the
  \<^verbatim>\<open>Dockerfile\<close>); \<^verbatim>\<open>final\<close> throws unless the data is a positive number of
  whole blocks and ends in a padding. None of this is inside a \<^verbatim>\<open>try\<close>, so each
  throw leaves \<^verbatim>\<open>decrypt\<close>.
\<close>

definition decrypt :: "block_cipher \<Rightarrow> string \<Rightarrow> crypto_error + string" where
  "decrypt k text =
     (if text = [] \<or> CHR '':'' \<notin> set text then Inr text
      else (let iv = fromHex (takeWhile (\<lambda>c. c \<noteq> CHR '':'') text);
                encrypted = tl (dropWhile (\<lambda>c. c \<noteq> CHR '':'') text)
            in if length iv \<noteq> 16 then Inl InvalidIV
               else if odd (length encrypted) then Inl InvalidHexLength
               else if fromHex encrypted = [] \<or> length (fromHex encrypted) mod 16 \<noteq> 0
                    then Inl WrongFinalBlockLength
               else (case pkcs7_unpad
                            (cbc_decrypt (decrypt_block k) iv (fromHex encrypted)) of
                       Inl e \<Rightarrow> Inl e
                     | Inr plain \<Rightarrow> Inr (utf8_string plain))))"

section \<open>Notification settings\<close>

text \<open>
  The settings held in \<^verbatim>\<open>notifications.json\<close>, with the nested objects flattened:
  \<open>smtp_auth_pass\<close> is \<^verbatim>\<open>email.smtp.auth.pass\<close>, and so on.
\<close>

record notifications =
  email_enabled :: bool
  smtp_host :: string
  smtp_port :: nat
  smtp_secure :: bool
  smtp_requireTLS :: bool
  smtp_auth_user :: string
  smtp_auth_pass :: string
  email_from :: string
  email_to :: string
  teams_enabled :: bool
  teams_webhookUrl :: string
  sms_enabled :: bool
  sms_accountSid :: string
  sms_authToken :: string
  sms_from :: string
  sms_to :: string
  iphone_enabled :: bool
  iphone_webhookUrl :: string

definition defaultNotifications :: notifications where
  "defaultNotifications =
     \<lparr>email_enabled = False, smtp_host = '''', smtp_port = 587, smtp_secure = False,
      smtp_requireTLS = True, smtp_auth_user = '''', smtp_auth_pass = '''',
      email_from = '''', email_to = '''',
      teams_enabled = False, teams_webhookUrl = '''',
      sms_enabled = False, sms_accountSid = '''', sms_authToken = '''',
      sms_from = '''', sms_to = '''',
      iphone_enabled = False, iphone_webhookUrl = ''''\<rparr>"

text \<open>\<^verbatim>\<open>if (field) field = decrypt(field)\<close>: the empty string is falsy and is kept.\<close>

definition decrypt_field :: "block_cipher \<Rightarrow> string \<Rightarrow> crypto_error + string" where
  "decrypt_field k field = (if field \<noteq> [] then decrypt k field else Inr field)"

text \<open>
  \<^verbatim>\<open>loadNotifications()\<close>. \<open>file\<close> is the parsed content of the settings file,
  \<open>None\<close> when it is missing or cannot be read or parsed. The whole body is one
  \<^verbatim>\<open>try\<close>, whose \<^verbatim>\<open>catch\<close> returns the default settings: that is also where a throw
  of \<^verbatim>\<open>decrypt\<close> ends.
\<close>

definition loadNotifications :: "block_cipher \<Rightarrow> notifications option \<Rightarrow> notifications" where
  "loadNotifications k file =
     (case file of
        None \<Rightarrow> defaultNotifications
      | Some n \<Rightarrow>
          (case decrypt_field k (smtp_auth_pass n) of
             Inl e \<Rightarrow> defaultNotifications
           | Inr pass \<Rightarrow>
               (case decrypt_field k (sms_accountSid n) of
                  Inl e \<Rightarrow> defaultNotifications
                | Inr accountSid \<Rightarrow>
                    (case decrypt_field k (sms_authToken n) of
                       Inl e \<Rightarrow> defaultNotifications
                     | Inr authToken \<Rightarrow>
                         n\<lparr>smtp_auth_pass := pass, sms_accountSid := accountSid,
                           sms_authToken := authToken\<rparr>))))"

text \<open>
  A block cipher to evaluate the vault on concrete inputs where the key does not
  matter: it adds one to every byte of a block.
\<close>

definition shift_cipher :: block_cipher where
  "shift_cipher =
     \<lparr>encrypt_block = map (\<lambda>b. b + 1), decrypt_block = map (\<lambda>b. b - 1)\<rparr>"

text \<open>The initialization vector \<^verbatim>\<open>00 01 ... 0f\<close>.\<close>

definition counting_iv :: "byte list" where
  "counting_iv = map of_nat [0..<16]"

section \<open>Process state\<close>

subsection \<open>The two tables\<close>

text \<open>
  \<^verbatim>\<open>serviceStatuses\<close> and \<^verbatim>\<open>serviceHistories\<close> are created as \<^verbatim>\<open>{}\<close> and used as
  dictionaries keyed by the service name. A read \<^verbatim>\<open>table[name]\<close> finds the value
  stored under the name; when there is none it finds, for the names of the properties
  of \<^verbatim>\<open>Object.prototype\<close>, the inherited member, which is truthy; otherwise it is
  \<^verbatim>\<open>undefined\<close>. The inherited members are functions, listed here with their
  \<^verbatim>\<open>length\<close>, except for \<^verbatim>\<open>__proto__\<close>, which reads as \<^verbatim>\<open>Object.prototype\<close> itself
  and has no \<^verbatim>\<open>length\<close>.
\<close>

definition object_prototype :: "(string \<times> nat option) list" where
  "object_prototype =
     [(''constructor'', Some 1), (''__defineGetter__'', Some 2),
      (''__defineSetter__'', Some 2), (''hasOwnProperty'', Some 1),
      (''__lookupGetter__'', Some 1), (''__lookupSetter__'', Some 1),
      (''isPrototypeOf'', Some 1), (''propertyIsEnumerable'', Some 1),
      (''toString'', Some 0), (''valueOf'', Some 0), (''__proto__'', None),
      (''toLocaleString'', Some 0)]"

datatype 'a member = Stored 'a | Inherited "nat option" | Missing

text \<open>
  The stored values are the own properties of the table. An assignment to the key
  \<^verbatim>\<open>__proto__\<close> would create no own property, and a read of that key never finds one.
  The prototype of the tables is \<^verbatim>\<open>Object.prototype\<close>, as it is when they are
  created, and the operations below keep it so: none of them assigns under that key,
  since for that key they throw before they would. (Adding a service of that very name
  through \<^verbatim>\<open>POST /api/services\<close>, or starting the process with one in the list,
  would replace the prototype; the state has no such tables.)
\<close>

definition member_of :: "(string \<rightharpoonup> 'a) \<Rightarrow> string \<Rightarrow> 'a member" where
  "member_of table key =
     (if key = ''__proto__'' then Inherited None
      else (case table key of
              Some v \<Rightarrow> Stored v
            | None \<Rightarrow>
                (case map_of object_prototype key of
                   Some len \<Rightarrow> Inherited len
                 | None \<Rightarrow> Missing)))"

text \<open>A name under which a fresh table has nothing.\<close>

definition ordinary :: "string \<Rightarrow> bool" where
  "ordinary key \<longleftrightarrow> map_of object_prototype key = None"

subsection \<open>Files\<close>

text \<open>
  A path is the list of its segments from the root. \<^verbatim>\<open>__dirname\<close> is \<^verbatim>\<open>/app\<close>, the
  \<^verbatim>\<open>WORKDIR\<close> of the \<^verbatim>\<open>Dockerfile\<close>.
\<close>

type_synonym path = "string list"

definition CONFIG_DIR :: path where
  "CONFIG_DIR = [''app'', ''config'']"

definition SERVICES_FILE :: path where
  "SERVICES_FILE = CONFIG_DIR @ [''services.json'']"

definition NOTIFICATIONS_FILE :: path where
  "NOTIFICATIONS_FILE = CONFIG_DIR @ [''notifications.json'']"

definition HISTORY_DIR :: path where
  "HISTORY_DIR = CONFIG_DIR @ [''history'']"

text \<open>The segments of a string between its slashes.\<close>

fun split_slash :: "string \<Rightarrow> string list" where
  "split_slash [] = [[]]"
| "split_slash (c # cs) =
     (if c = CHR ''/'' then [] # split_slash cs
      else (case split_slash cs of
              [] \<Rightarrow> [[c]]
            | seg # segs \<Rightarrow> (c # seg) # segs))"

text \<open>
  \<^verbatim>\<open>path.join(dir, s)\<close> for an absolute \<open>dir\<close>: the segments of \<open>s\<close> are appended
  and the result is normalised, an empty segment and \<^verbatim>\<open>.\<close> being dropped and \<^verbatim>\<open>..\<close>
  removing the segment before it (none at the root). \<open>walk\<close> holds the path
  reversed.
\<close>

definition walk :: "string \<Rightarrow> path \<Rightarrow> path" where
  "walk seg reversed =
     (if seg = [] \<or> seg = ''.'' then reversed
      else if seg = ''..'' then tl reversed
      else seg # reversed)"

definition path_join :: "path \<Rightarrow> string \<Rightarrow> path" where
  "path_join dir s = rev (fold walk (split_slash s) (rev dir))"

text \<open>\<^verbatim>\<open>path.join(HISTORY_DIR, `${serviceName}.json`)\<close>.\<close>

definition historyFile :: "string \<Rightarrow> path" where
  "historyFile serviceName = path_join HISTORY_DIR (serviceName @ ''.json'')"

text \<open>What a file holds: the JSON text of a history, of a service list or of settings.\<close>

datatype content =
    HistoryJson "history_entry list"
  | ServicesJson "service list"
  | SettingsJson notifications

subsection \<open>The state\<close>

text \<open>
  The mutable state of the process and of its disk:
  \<^item> \<open>serviceStatuses\<close> and \<open>serviceHistories\<close>, the stored values of the two tables;
  \<^item> \<open>files\<close>, the files by their paths, a missing file being \<open>None\<close>;
  \<^item> \<open>transporter\<close> and \<open>twilioClient\<close>. The program never declares these two
    variables: it only assigns them, in \<^verbatim>\<open>initializeNotifications\<close>, which creates a
    global binding at the first assignment. The field is \<open>True\<close> once the variable has
    been assigned (its value is then a client object, which is truthy); reading the
    variable before that throws a \<^verbatim>\<open>ReferenceError\<close>;
  \<^item> \<open>fanOuts\<close>, the calls of \<^verbatim>\<open>checkAllServices\<close> that have started their probes and
    are suspended at \<^verbatim>\<open>await Promise.all(promises)\<close>, each with the services it probes.
\<close>

record monitor =
  serviceStatuses :: "string \<rightharpoonup> check_result"
  serviceHistories :: "string \<rightharpoonup> history_entry list"
  files :: "path \<rightharpoonup> content"
  transporter :: bool
  twilioClient :: bool
  fanOuts :: "service list list"

text \<open>
  A process whose tables are empty and whose variables are unassigned, on a disk that
  holds the given service list and settings and no history file. (A service of the
  list has no stored history when it has come into the list on the disk since the
  process loaded the histories.)
\<close>

definition process_start :: "service list \<Rightarrow> notifications option \<Rightarrow> monitor" where
  "process_start services settings =
     \<lparr>serviceStatuses = Map.empty, serviceHistories = Map.empty,
      files = (case settings of
                 None \<Rightarrow> [SERVICES_FILE \<mapsto> ServicesJson services]
               | Some n \<Rightarrow> [SERVICES_FILE \<mapsto> ServicesJson services,
                            NOTIFICATIONS_FILE \<mapsto> SettingsJson n]),
      transporter = False, twilioClient = False, fanOuts = []\<rparr>"

text \<open>The four channels: mail, chat webhook, SMS gateway, device webhook.\<close>

datatype channel = Mail | Teams | Sms | Iphone

text \<open>
  What the environment decides for the operations on the state:
  \<^item> \<open>provider\<close>: for a service name and a channel, how the provider answers the send
    of the alert, \<open>Inl\<close> being a rejection with its message;
  \<^item> \<open>writes\<close>: whether \<^verbatim>\<open>ensureConfigDir()\<close> and \<^verbatim>\<open>fs.writeFile\<close> on a path succeed.
    They fail when a directory of the path is missing (as for the history file of a
    name with a slash in it), and on any other refusal of the disk;
  \<^item> \<open>unlinks\<close>: whether \<^verbatim>\<open>fs.unlink\<close> on a path succeeds;
  \<^item> \<open>ninetyDaysBefore\<close>: the instant of \<^verbatim>\<open>moment().subtract(90, 'days')\<close> when
    \<^verbatim>\<open>moment()\<close> is the given instant, that is the same local time of day 90 calendar
    days earlier. In a zone without a change of its offset in between, as UTC is, this
    is 90 times 24 hours earlier.
\<close>

record environment =
  provider :: "string \<Rightarrow> channel \<Rightarrow> string + unit"
  writes :: "path \<Rightarrow> bool"
  unlinks :: "path \<Rightarrow> bool"
  ninetyDaysBefore :: "int \<Rightarrow> int"

subsection \<open>Loading the settings\<close>

text \<open>
  \<^verbatim>\<open>await loadNotifications()\<close> on the state: the default settings when the file is
  missing, the settings of the file with their secrets decrypted (or the default ones,
  when that throws), and \<open>None\<close> when the file holds JSON of another kind.
  \<^verbatim>\<open>loadNotifications\<close> returns such a value as it is, the optional chaining finding no
  secret in it, and the first read of \<^verbatim>\<open>notifications.email.smtp\<close> by the caller
  throws a \<^verbatim>\<open>TypeError\<close>.
\<close>

definition loadedNotifications :: "block_cipher \<Rightarrow> monitor \<Rightarrow> notifications option" where
  "loadedNotifications k st =
     (case files st NOTIFICATIONS_FILE of
        None \<Rightarrow> Some (loadNotifications k None)
      | Some (SettingsJson n) \<Rightarrow> Some (loadNotifications k (Some n))
      | Some _ \<Rightarrow> None)"

datatype js_error = ReferenceError string | TypeError string | Error string

text \<open>
  \<^verbatim>\<open>initializeNotifications()\<close>, as far as the two variables go: the state when the
  call has returned or thrown. The transporter is assigned when mail is enabled and has
  its host, user and password; \<^verbatim>\<open>transporter.verify()\<close> is inside a \<^verbatim>\<open>try\<close>. The
  SMS client is assigned when SMS is enabled and has its account identifier and token,
  unless the constructor \<^verbatim>\<open>twilio(accountSid, authToken)\<close> throws, which it does for an
  account identifier that does not start with \<^verbatim>\<open>AC\<close>.
\<close>

definition initializeNotifications :: "block_cipher \<Rightarrow> monitor \<Rightarrow> monitor" where
  "initializeNotifications k st =
     (case loadedNotifications k st of
        None \<Rightarrow> st
      | Some notifications \<Rightarrow>
          st\<lparr>transporter :=
               (if email_enabled notifications \<and> smtp_host notifications \<noteq> []
                   \<and> smtp_auth_user notifications \<noteq> [] \<and> smtp_auth_pass notifications \<noteq> []
                then True else transporter st),
             twilioClient :=
               (if sms_enabled notifications \<and> sms_accountSid notifications \<noteq> []
                   \<and> sms_authToken notifications \<noteq> []
                   \<and> take 2 (sms_accountSid notifications) = ''AC''
                then True else twilioClient st)\<rparr>)"

text \<open>The error with which that call throws, if it does.\<close>

definition initializeNotifications_throws :: "block_cipher \<Rightarrow> monitor \<Rightarrow> js_error option" where
  "initializeNotifications_throws k st =
     (case loadedNotifications k st of
        None \<Rightarrow> Some (TypeError ''Cannot read properties of undefined'')
      | Some notifications \<Rightarrow>
          if sms_enabled notifications \<and> sms_accountSid notifications \<noteq> []
             \<and> sms_authToken notifications \<noteq> []
             \<and> take 2 (sms_accountSid notifications) \<noteq> ''AC''
          then Some (Error ''accountSid must start with AC'')
          else None)"

section \<open>Notification dispatcher\<close>

text \<open>
  What a dispatch does, in order: \<open>DispatchCalled\<close> is the entry into
  \<^verbatim>\<open>sendNotifications\<close> with the service's name, the previous and the current status;
  \<open>Sent\<close> is a send that the provider accepted, \<open>SendFailed\<close> a send whose promise
  was rejected, with the message that the \<^verbatim>\<open>catch\<close> block logs.
\<close>

datatype event =
    DispatchCalled string status status
  | Sent channel string
  | SendFailed channel string string

text \<open>The events that are entries into \<^verbatim>\<open>sendNotifications\<close>.\<close>

fun is_dispatch_call :: "event \<Rightarrow> bool" where
  "is_dispatch_call (DispatchCalled _ _ _) = True"
| "is_dispatch_call _ = False"

text \<open>
  The effect of a piece of code: the events it produced and, if it threw, the error.
  \<open>then_do\<close> is sequencing: what follows a throw does not run.
\<close>

type_synonym effect = "event list \<times> js_error option"

fun then_do :: "effect \<Rightarrow> effect \<Rightarrow> effect" where
  "then_do (evs, Some e) _ = (evs, Some e)"
| "then_do (evs, None) (evs', r) = (evs @ evs', r)"

text \<open>
  \<^verbatim>\<open>try { await <send>; logger.info(...) } catch (error) { logger.error(...) }\<close>, the
  body of each of the four senders after its guard; \<open>outcome\<close> is how the provider's
  promise settled (\<^verbatim>\<open>transporter.sendMail\<close>, \<^verbatim>\<open>axios.post\<close>,
  \<^verbatim>\<open>twilioClient.messages.create\<close>), \<open>Inl\<close> being a rejection with its message.
\<close>

definition try_send :: "channel \<Rightarrow> string \<Rightarrow> string + unit \<Rightarrow> effect" where
  "try_send ch service_name outcome =
     (case outcome of
        Inr _ \<Rightarrow> ([Sent ch service_name], None)
      | Inl msg \<Rightarrow> ([SendFailed ch service_name msg], None))"

definition sendEmailNotification ::
  "(channel \<Rightarrow> string + unit) \<Rightarrow> monitor \<Rightarrow> check_result \<Rightarrow> notifications \<Rightarrow> effect" where
  "sendEmailNotification send st service notifications =
     (if \<not> transporter st then ([], Some (ReferenceError ''transporter is not defined''))
      else try_send Mail (name service) (send Mail))"

definition sendTeamsNotification ::
  "(channel \<Rightarrow> string + unit) \<Rightarrow> monitor \<Rightarrow> check_result \<Rightarrow> notifications \<Rightarrow> effect" where
  "sendTeamsNotification send st service notifications =
     (if \<not> teams_enabled notifications \<or> teams_webhookUrl notifications = [] then ([], None)
      else try_send Teams (name service) (send Teams))"

definition sendSmsNotification ::
  "(channel \<Rightarrow> string + unit) \<Rightarrow> monitor \<Rightarrow> check_result \<Rightarrow> notifications \<Rightarrow> effect" where
  "sendSmsNotification send st service notifications =
     (if \<not> twilioClient st then ([], Some (ReferenceError ''twilioClient is not defined''))
      else try_send Sms (name service) (send Sms))"

definition sendIphoneNotification ::
  "(channel \<Rightarrow> string + unit) \<Rightarrow> monitor \<Rightarrow> check_result \<Rightarrow> notifications \<Rightarrow> effect" where
  "sendIphoneNotification send st service notifications =
     (if \<not> iphone_enabled notifications \<or> iphone_webhookUrl notifications = [] then ([], None)
      else try_send Iphone (name service) (send Iphone))"

text \<open>
  \<^verbatim>\<open>sendNotifications(service, previousStatus)\<close>. \<open>send\<close> gives, for each channel,
  how the provider answers the send of this dispatch. The settings are loaded and
  logged before the statuses are compared.
\<close>

definition sendNotifications ::
  "block_cipher \<Rightarrow> (channel \<Rightarrow> string + unit) \<Rightarrow> monitor \<Rightarrow> check_result \<Rightarrow> status \<Rightarrow> effect"
  where
  "sendNotifications k send st service previousStatus =
     then_do ([DispatchCalled (name service) previousStatus (status service)], None)
       (case loadedNotifications k st of
          None \<Rightarrow>
            ([], Some (TypeError ''Cannot read properties of undefined''))
        | Some notifications \<Rightarrow>
            if previousStatus = status service then ([], None)
            else
              then_do (if email_enabled notifications
                       then sendEmailNotification send st service notifications
                       else ([], None))
             (then_do (if teams_enabled notifications
                       then sendTeamsNotification send st service notifications
                       else ([], None))
             (then_do (if sms_enabled notifications
                       then sendSmsNotification send st service notifications
                       else ([], None))
                      (if iphone_enabled notifications
                       then sendIphoneNotification send st service notifications
                       else ([], None)))))"

section \<open>History persister\<close>

text \<open>
  \<^verbatim>\<open>moment(entry.timestamp).isAfter(m)\<close>: strictly later; a timestamp that is
  \<^verbatim>\<open>null\<close> is an invalid moment, which is after nothing.
\<close>

definition isAfter :: "int option \<Rightarrow> int \<Rightarrow> bool" where
  "isAfter t m = (case t of None \<Rightarrow> False | Some x \<Rightarrow> m < x)"

text \<open>
  \<^verbatim>\<open>saveServiceHistory(serviceName, history)\<close>; \<open>now\<close> is the instant \<^verbatim>\<open>moment()\<close>
  reads. \<^verbatim>\<open>fs.writeFile\<close> replaces the content of the file at the path, or throws and
  leaves the disk as it is.
\<close>

definition saveServiceHistory ::
  "environment \<Rightarrow> int \<Rightarrow> string \<Rightarrow> history_entry list \<Rightarrow> monitor
     \<Rightarrow> (js_error + history_entry list) \<times> monitor" where
  "saveServiceHistory env now serviceName history st =
     (let ninetyDaysAgo = ninetyDaysBefore env now;
          trimmedHistory = filter (\<lambda>entry. isAfter (timestamp entry) ninetyDaysAgo) history
      in if writes env (historyFile serviceName)
         then (Inr trimmedHistory,
               st\<lparr>files := (files st)(historyFile serviceName \<mapsto> HistoryJson trimmedHistory)\<rparr>)
         else (Inl (Error ''writeFile''), st))"



section \<open>Check cycle\<close>

text \<open>The entry that the loop pushes onto the history for a result.\<close>

definition entry_of :: "check_result \<Rightarrow> history_entry" where
  "entry_of result =
     \<lparr>timestamp = lastChecked result, entryStatus = status result,
      entryStatusCode = statusCode result, entryResponseTime = responseTime result,
      entryError = error result\<rparr>"

text \<open>
  \<^verbatim>\<open>previousEntry ? previousEntry.status : 'unknown'\<close>, where \<^verbatim>\<open>previousEntry\<close> is
  \<^verbatim>\<open>serviceStatuses[result.name]\<close>: an inherited member is truthy and has no
  \<^verbatim>\<open>status\<close>.
\<close>

definition previousStatusOf :: "monitor \<Rightarrow> string \<Rightarrow> status" where
  "previousStatusOf st service_name =
     (case member_of (serviceStatuses st) service_name of
        Missing \<Rightarrow> Unknown
      | Stored previousEntry \<Rightarrow> status previousEntry
      | Inherited _ \<Rightarrow> Undefined)"

text \<open>
  One pass of the loop \<^verbatim>\<open>for (const result of results)\<close> of \<^verbatim>\<open>checkAllServices\<close>:
  read the previous status; create the history when \<^verbatim>\<open>serviceHistories[result.name]\<close>
  is falsy and push the entry onto it, which throws a \<^verbatim>\<open>TypeError\<close> when that is an
  inherited member, since it has no \<^verbatim>\<open>push\<close>; save, which may throw, and keep the
  trimmed history; store the result; call \<^verbatim>\<open>sendNotifications\<close> when the status
  differs from the previous one. \<open>now\<close> is the instant of the save. A throw leaves
  the loop with the state as it is by then: after the push and before the save the
  table holds the history with the new entry, untrimmed.
\<close>

definition updateService ::
  "block_cipher \<Rightarrow> environment \<Rightarrow> int \<Rightarrow> check_result \<Rightarrow> monitor \<Rightarrow> monitor \<times> effect" where
  "updateService k env now result st =
     (let previousStatus = previousStatusOf st (name result)
      in case member_of (serviceHistories st) (name result) of
           Inherited _ \<Rightarrow>
             (st, ([], Some (TypeError ''serviceHistories[result.name].push is not a function'')))
         | found \<Rightarrow>
             (let history = (case found of Stored h \<Rightarrow> h | _ \<Rightarrow> []) @ [entry_of result];
                  st0 = st\<lparr>serviceHistories := (serviceHistories st)(name result \<mapsto> history)\<rparr>
              in case saveServiceHistory env now (name result) history st0 of
                   (Inl e, st1) \<Rightarrow> (st1, ([], Some e))
                 | (Inr trimmedHistory, st1) \<Rightarrow>
                     (let st2 = st1\<lparr>serviceHistories :=
                                       (serviceHistories st1)(name result \<mapsto> trimmedHistory),
                                     serviceStatuses :=
                                       (serviceStatuses st1)(name result \<mapsto> result)\<rparr>
                      in (st2,
                          if previousStatus \<noteq> status result
                          then sendNotifications k (provider env (name result)) st2 result
                                 previousStatus
                          else ([], None)))))"

text \<open>
  The whole loop. \<open>clock i\<close> is the instant of the save of the \<open>i\<close>-th pass.
\<close>

fun updateAll ::
  "block_cipher \<Rightarrow> environment \<Rightarrow> (nat \<Rightarrow> int) \<Rightarrow> nat \<Rightarrow> check_result list \<Rightarrow> monitor
     \<Rightarrow> monitor \<times> effect" where
  "updateAll k env clock i [] st = (st, ([], None))"
| "updateAll k env clock i (result # results) st =
     (case updateService k env (clock i) result st of
        (st', (evs, Some e)) \<Rightarrow> (st', (evs, Some e))
      | (st', (evs, None)) \<Rightarrow>
          (case updateAll k env clock (Suc i) results st' of
             (st'', eff) \<Rightarrow> (st'', then_do (evs, None) eff)))"

text \<open>
  The outcome of the probe of one service, as \<^verbatim>\<open>checkService\<close> receives it from
  outside: how \<^verbatim>\<open>axios.get\<close> settled and the three readings of the clock.
\<close>

record probe =
  settled :: "axios_error + nat"
  startedAt :: int
  endedAt :: int
  checkedAt :: int

text \<open>
  \<^verbatim>\<open>checkAllServices()\<close> is an \<^verbatim>\<open>async\<close> function: it runs up to
  \<^verbatim>\<open>await Promise.all(promises)\<close>, is suspended while the probes are under way, and runs
  the update loop once they have all settled. Whatever else is due runs in between.

  \<open>beginCycle\<close> is the first part: the service list is loaded (\<open>services\<close> is the value
  of \<^verbatim>\<open>loadServices()\<close>) and a probe is started for each service. No state is tested
  before: this is what the call in \<^verbatim>\<open>initialize\<close>, every tick of
  \<^verbatim>\<open>setInterval(checkAllServices, 30000)\<close> and every request of
  \<^verbatim>\<open>GET /api/services/check\<close> run at once.
\<close>

definition beginCycle :: "service list \<Rightarrow> monitor \<Rightarrow> monitor" where
  "beginCycle services st = st\<lparr>fanOuts := fanOuts st @ [services]\<rparr>"

text \<open>
  \<open>endCycle\<close> is the second part, for the \<open>i\<close>-th of the calls under way: its probes
  have settled as \<open>probes\<close> says (\<^verbatim>\<open>Promise.all\<close> keeps the order of the list), and
  the state is updated service by service.
\<close>

definition endCycle ::
  "block_cipher \<Rightarrow> environment \<Rightarrow> (nat \<Rightarrow> int) \<Rightarrow> (service \<Rightarrow> probe) \<Rightarrow> nat \<Rightarrow> monitor
     \<Rightarrow> monitor \<times> effect" where
  "endCycle k env clock probes i st =
     (if i < length (fanOuts st)
      then (let services = fanOuts st ! i;
                results = map (\<lambda>service. checkService service (settled (probes service))
                                           (startedAt (probes service)) (endedAt (probes service))
                                           (checkedAt (probes service))) services
            in updateAll k env clock 0 results
                 (st\<lparr>fanOuts := take i (fanOuts st) @ drop (Suc i) (fanOuts st)\<rparr>))
      else (st, ([], None)))"

text \<open>A call of \<^verbatim>\<open>checkAllServices()\<close> during which nothing else runs.\<close>

definition checkAllServices ::
  "block_cipher \<Rightarrow> environment \<Rightarrow> (nat \<Rightarrow> int) \<Rightarrow> (service \<Rightarrow> probe) \<Rightarrow> service list \<Rightarrow> monitor
     \<Rightarrow> monitor \<times> effect" where
  "checkAllServices k env clock probes services st =
     endCycle k env clock probes (length (fanOuts st)) (beginCycle services st)"

section \<open>Administrative operations\<close>

text \<open>
  \<^verbatim>\<open>DELETE /api/services/:name\<close>; \<open>services\<close> is the value of \<^verbatim>\<open>loadServices()\<close>.
  The answer is 404, with no change, when the list has no service of that name.
  Otherwise the shortened list is saved, which may throw; the stored values of the name
  are deleted from both tables; the history file of the name is unlinked, a failure of
  which is ignored; and the answer is 204.
\<close>

definition deleteService ::
  "environment \<Rightarrow> string \<Rightarrow> service list \<Rightarrow> monitor \<Rightarrow> (js_error + nat) \<times> monitor" where
  "deleteService env serviceName services st =
     (let updatedServices = filter (\<lambda>service. name service \<noteq> serviceName) services
      in if length services = length updatedServices then (Inr 404, st)
         else if \<not> writes env SERVICES_FILE then (Inl (Error ''writeFile''), st)
         else (let st1 = st\<lparr>files := (files st)(SERVICES_FILE \<mapsto> ServicesJson updatedServices)\<rparr>;
                   st2 = st1\<lparr>serviceStatuses := (serviceStatuses st1)(serviceName := None),
                             serviceHistories := (serviceHistories st1)(serviceName := None)\<rparr>;
                   st3 = (if unlinks env (historyFile serviceName)
                          then st2\<lparr>files := (files st2)(historyFile serviceName := None)\<rparr>
                          else st2)
               in (Inr 204, st3)))"






section \<open>Concrete inputs\<close>

text \<open>
  A service; an environment in which every provider accepts every send, every write
  and unlink succeeds and the zone is UTC; a provider whose mail server refuses the
  connection; settings with mail and the device webhook complete and SMS enabled
  without its account identifier.
\<close>

definition service_B :: service where
  "service_B =
     \<lparr>name = ''B'', url = ''http://b.example/health'', timeout = Some 5000,
      expectedStatus = Some 200\<rparr>"

definition accepting :: "string \<Rightarrow> channel \<Rightarrow> string + unit" where
  "accepting service_name ch = Inr ()"

definition calm :: environment where
  "calm =
     \<lparr>provider = accepting, writes = (\<lambda>p. True), unlinks = (\<lambda>p. True),
      ninetyDaysBefore = (\<lambda>now. now - 90 * 24 * 60 * 60 * 1000)\<rparr>"

definition mail_unreachable :: "channel \<Rightarrow> string + unit" where
  "mail_unreachable ch = (if ch = Mail then Inl ''connect ECONNREFUSED'' else Inr ())"

definition settings_sms_incomplete :: notifications where
  "settings_sms_incomplete =
     \<lparr>email_enabled = True, smtp_host = ''smtp.example'', smtp_port = 587,
      smtp_secure = False, smtp_requireTLS = True, smtp_auth_user = ''monitor'',
      smtp_auth_pass = ''hunter2'', email_from = ''monitor@example'',
      email_to = ''ops@example'',
      teams_enabled = False, teams_webhookUrl = '''',
      sms_enabled = True, sms_accountSid = '''', sms_authToken = '''',
      sms_from = ''+100'', sms_to = ''+200'',
      iphone_enabled = True, iphone_webhookUrl = ''http://hook.example''\<rparr>"

text \<open>
  A probe that is answered with status 200 after 42 milliseconds, and the state after
  the first cycle of a process that monitors \<open>service_B\<close> alone.
\<close>

definition probe_200 :: "int \<Rightarrow> service \<Rightarrow> probe" where
  "probe_200 t service =
     \<lparr>settled = axios_get (HttpResponse 200), startedAt = t, endedAt = t + 42,
      checkedAt = t + 42\<rparr>"

definition first_cycle :: monitor where
  "first_cycle =
     fst (checkAllServices shift_cipher calm (\<lambda>i. 1050) (probe_200 1000) [service_B]
            (process_start [service_B] None))"

text \<open>A service whose name is the name of a member that every object inherits.\<close>

definition service_constructor :: service where
  "service_constructor =
     \<lparr>name = ''constructor'', url = ''http://c.example/health'', timeout = Some 5000,
      expectedStatus = Some 200\<rparr>"

text \<open>
  A disk on which the directories are \<^verbatim>\<open>/app\<close>, \<^verbatim>\<open>/app/config\<close> and
  \<^verbatim>\<open>/app/config/history\<close> and no others, so that a file can be written in these three
  only; and a service with a slash in its name.
\<close>

definition flat_disk :: environment where
  "flat_disk =
     \<lparr>provider = accepting,
      writes = (\<lambda>p. butlast p = [''app''] \<or> butlast p = CONFIG_DIR \<or> butlast p = HISTORY_DIR),
      unlinks = (\<lambda>p. True),
      ninetyDaysBefore = (\<lambda>now. now - 90 * 24 * 60 * 60 * 1000)\<rparr>"

definition service_slash :: service where
  "service_slash =
     \<lparr>name = ''a/b'', url = ''http://ab.example/health'', timeout = Some 5000,
      expectedStatus = Some 200\<rparr>"

text \<open>
  A service that is given 60 seconds to answer, and a probe of it that ends with the
  timeout, 60 seconds after its start.
\<close>

definition service_slow :: service where
  "service_slow =
     \<lparr>name = ''S'', url = ''http://s.example/health'', timeout = Some 60000,
      expectedStatus = Some 200\<rparr>"

definition probe_hangs :: "int \<Rightarrow> service \<Rightarrow> probe" where
  "probe_hangs t service =
     \<lparr>settled = axios_get (TransportFailure ''timeout of 60000ms exceeded''),
      startedAt = t, endedAt = t + 60000, checkedAt = t + 60000\<rparr>"

section \<open>Properties of the checker\<close>

lemma show_nat_404: "show_nat 404 = ''404''"
  by code_simp

lemma checkService_status_up_or_down:
  "status (checkService service outcome t0 t1 now) \<noteq> Unknown"
  "status (checkService service outcome t0 t1 now) \<noteq> Undefined"
  by (cases outcome; simp add: checkService_def Let_def)+

lemma checkService_name:
  "name (checkService service outcome t0 t1 now) = name service"
  by (cases outcome) (simp_all add: checkService_def Let_def)

text \<open>
  When the promise of \<^verbatim>\<open>axios.get\<close> is fulfilled, the result is up exactly when the
  response status is \<^verbatim>\<open>expectedStatus || 200\<close>, the error is then \<^verbatim>\<open>null\<close>, and
  otherwise the error is the text \<^verbatim>\<open>Expected status <expected>, got <actual>\<close>.
\<close>

lemma checkService_fulfilled:
  "(status (checkService service (Inr s) t0 t1 now) = Up
      \<longleftrightarrow> s = or_default (expectedStatus service) 200)
   \<and> (s = or_default (expectedStatus service) 200 \<longrightarrow>
        error (checkService service (Inr s) t0 t1 now) = None)
   \<and> (s \<noteq> or_default (expectedStatus service) 200 \<longrightarrow>
        status (checkService service (Inr s) t0 t1 now) = Down
        \<and> error (checkService service (Inr s) t0 t1 now)
            = Some (''Expected status '' @ show_nat (or_default (expectedStatus service) 200)
                    @ '', got '' @ show_nat s))"
  by (simp add: checkService_def Let_def)

text \<open>
  C1. The claim: whenever the probe receives an HTTP response, the result is up if and
  only if the response status equals the expected status, and a differing status gives
  down with the error text \<^verbatim>\<open>Expected status <expected>, got <actual>\<close>. The code
  breaks it for every response outside 200..299, which \<^verbatim>\<open>axios.get\<close> rejects before
  the comparison is reached: a service that expects 404 and whose endpoint answers 404
  is reported down, with the message of the rejection as error text.
\<close>

theorem checkService_expected_404_is_down:
  "status (checkService \<lparr>name = ''A'', url = ''http://a.example/missing'',
                          timeout = None, expectedStatus = Some 404\<rparr>
             (axios_get (HttpResponse 404)) 1000 1042 1042) = Down
   \<and> statusCode (checkService \<lparr>name = ''A'', url = ''http://a.example/missing'',
                          timeout = None, expectedStatus = Some 404\<rparr>
             (axios_get (HttpResponse 404)) 1000 1042 1042) = Some 404
   \<and> error (checkService \<lparr>name = ''A'', url = ''http://a.example/missing'',
                          timeout = None, expectedStatus = Some 404\<rparr>
             (axios_get (HttpResponse 404)) 1000 1042 1042)
       = Some ''Request failed with status code 404''"
  by (simp add: checkService_def axios_get_def or_null_def show_nat_404)

text \<open>
  C7. A rejected request, whatever the failure, gives a result (the function is total)
  with status down and the failure's message as error; the status code is absent when
  the failure carries no response, and is the response's code when it carries one
  (HTTP status codes are positive). A transport failure such as a timeout carries no
  response, so its status code is absent.
\<close>

theorem checkService_failure_is_down:
  "status (checkService service (Inl err) t0 t1 now) = Down
   \<and> error (checkService service (Inl err) t0 t1 now) = Some (message err)
   \<and> (response err = None \<longrightarrow> statusCode (checkService service (Inl err) t0 t1 now) = None)
   \<and> (\<forall>c. response err = Some c \<and> 0 < c \<longrightarrow>
          statusCode (checkService service (Inl err) t0 t1 now) = Some c)
   \<and> status (checkService service (axios_get (TransportFailure msg)) t0 t1 now) = Down
   \<and> statusCode (checkService service (axios_get (TransportFailure msg)) t0 t1 now) = None
   \<and> error (checkService service (axios_get (TransportFailure msg)) t0 t1 now) = Some msg"
  by (simp add: checkService_def axios_get_def or_null_def)

theorem checkService_failure_is_down_witness:
  "status (checkService \<lparr>name = ''A'', url = ''http://a.example'', timeout = Some 5000,
                          expectedStatus = Some 200\<rparr>
             (Inl (AxiosError ''Request failed with status code 503'' (Some 503)))
             1000 1042 1042) = Down
   \<and> statusCode (checkService \<lparr>name = ''A'', url = ''http://a.example'', timeout = Some 5000,
                          expectedStatus = Some 200\<rparr>
             (Inl (AxiosError ''Request failed with status code 503'' (Some 503)))
             1000 1042 1042) = Some 503
   \<and> statusCode (checkService \<lparr>name = ''A'', url = ''http://a.example'', timeout = Some 5000,
                          expectedStatus = Some 200\<rparr>
             (axios_get (TransportFailure ''timeout of 5000ms exceeded''))
             1000 1042 1042) = None"
  using checkService_failure_is_down
    [of "\<lparr>name = ''A'', url = ''http://a.example'', timeout = Some 5000,
          expectedStatus = Some 200\<rparr>"
        "AxiosError ''Request failed with status code 503'' (Some 503)"
        1000 1042 1042 "''timeout of 5000ms exceeded''"]
  by simp

section \<open>Properties of the vault\<close>

subsection \<open>Hex and UTF-8 encodings\<close>

lemma hex_value_hex_digit: "n < 16 \<Longrightarrow> hex_value (hex_digit n) = Some n"
  by (auto simp: hex_value_def hex_digit_def Let_def)

lemma hex_value_colon: "hex_value (CHR '':'') = None"
  by (simp add: hex_value_def)

lemma hex_digit_not_colon: "n < 16 \<Longrightarrow> hex_digit n \<noteq> CHR '':''"
  using hex_value_hex_digit [of n] hex_value_colon by auto

lemma unat_byte_div: "unat (b :: byte) div 16 < 16"
  using unsigned_less [of b, where 'a = nat] by simp

lemma fromHex_toHex:
  "fromHex (toHex bs) = bs"
  by (induction bs) (simp_all add: hex_value_hex_digit unat_byte_div)

lemma length_toHex: "length (toHex bs) = 2 * length bs"
  by (induction bs) simp_all

lemma colon_notin_toHex: "CHR '':'' \<notin> set (toHex bs)"
proof (induction bs)
  case Nil show ?case by simp
next
  case (Cons b bs)
  have "hex_digit (unat b div 16) \<noteq> CHR '':''" by (rule hex_digit_not_colon) (rule unat_byte_div)
  moreover have "hex_digit (unat b mod 16) \<noteq> CHR '':''" by (rule hex_digit_not_colon) simp
  ultimately show ?case using Cons by auto
qed

lemma utf8_roundtrip: "utf8_string (utf8_bytes s) = s"
  by (induction s) (simp_all add: utf8_string_def utf8_bytes_def unat_of_nat)

subsection \<open>Padding and chaining\<close>

lemma xor_block_length: "length (xor_block xs ys) = min (length xs) (length ys)"
  by (simp add: xor_block_def)

lemma xor_block_cancel: "length xs = length ys \<Longrightarrow> xor_block (xor_block xs ys) ys = xs"
  by (induction xs ys rule: list_induct2) (simp_all add: xor_block_def xor.assoc)

lemma length_pkcs7_pad: "length (pkcs7_pad bs) mod 16 = 0 \<and> pkcs7_pad bs \<noteq> []"
proof -
  have "(n + (16 - n mod 16)) mod 16 = (0::nat)" for n by presburger
  then have "length (pkcs7_pad bs) mod 16 = 0"
    by (simp add: pkcs7_pad_def)
  moreover have "pkcs7_pad bs \<noteq> []" by (simp add: pkcs7_pad_def)
  ultimately show ?thesis by simp
qed

lemma pkcs7_roundtrip: "pkcs7_unpad (pkcs7_pad bs) = Inr bs"
proof -
  define p where "p = 16 - length bs mod 16"
  have p: "0 < p" "p \<le> 16" by (simp_all add: p_def)
  have u: "unat (of_nat p :: byte) = p" using p by (simp add: unat_of_nat)
  have pad: "pkcs7_pad bs = bs @ replicate p (of_nat p)" by (simp add: pkcs7_pad_def p_def)
  have l: "last (bs @ replicate p (of_nat p :: byte)) = of_nat p" using p by simp
  show ?thesis
    unfolding pad pkcs7_unpad_def l Let_def u
    using p by (simp add: list_all_iff)
qed

lemma drop_whole_block: "16 \<le> n \<Longrightarrow> n mod 16 = 0 \<Longrightarrow> (n - 16) mod 16 = (0::nat)"
  by presburger

lemma whole_blocks: "bs \<noteq> [] \<Longrightarrow> length bs mod 16 = 0 \<Longrightarrow> 16 \<le> length (bs :: byte list)"
  by (cases "length bs < 16") auto

lemma cbc_encrypt_length:
  assumes E: "\<forall>b. length b = 16 \<longrightarrow> length (E b) = 16"
  shows "length prev = 16 \<Longrightarrow> length bs mod 16 = 0 \<Longrightarrow> length (cbc_encrypt E prev bs) = length bs"
  using E
proof (induction E prev bs rule: cbc_encrypt.induct)
  case (1 E prev bs)
  show ?case
  proof (cases "bs = []")
    case True then show ?thesis by (simp add: cbc_encrypt.simps)
  next
    case False
    with "1.prems" have len: "16 \<le> length bs" by (simp add: whole_blocks)
    have blk: "length (xor_block (take 16 bs) prev) = 16"
      using len "1.prems" by (simp add: xor_block_length)
    then have c: "length (E (xor_block (take 16 bs) prev)) = 16" using "1.prems" by blast
    have rest: "length (drop 16 bs) mod 16 = 0"
      using len "1.prems"(2) by (simp add: drop_whole_block)
    have "length (cbc_encrypt E (E (xor_block (take 16 bs) prev)) (drop 16 bs)) = length (drop 16 bs)"
      using "1.IH" [OF False c rest "1.prems"(3)] .
    then show ?thesis
      using False c len by (subst cbc_encrypt.simps) simp
  qed
qed

lemma cbc_roundtrip:
  assumes E: "\<forall>b. length b = 16 \<longrightarrow> length (E b) = 16 \<and> D (E b) = b"
  shows "length prev = 16 \<Longrightarrow> length bs mod 16 = 0 \<Longrightarrow> cbc_decrypt D prev (cbc_encrypt E prev bs) = bs"
  using E
proof (induction E prev bs rule: cbc_encrypt.induct)
  case (1 E prev bs)
  show ?case
  proof (cases "bs = []")
    case True then show ?thesis by (simp add: cbc_encrypt.simps cbc_decrypt.simps)
  next
    case False
    with "1.prems" have len: "16 \<le> length bs" by (simp add: whole_blocks)
    define c where "c = E (xor_block (take 16 bs) prev)"
    have blk: "length (xor_block (take 16 bs) prev) = 16"
      using len "1.prems" by (simp add: xor_block_length)
    then have c: "length c = 16" and dc: "D c = xor_block (take 16 bs) prev"
      using "1.prems" unfolding c_def by blast+
    have rest: "length (drop 16 bs) mod 16 = 0"
      using len "1.prems"(2) by (simp add: drop_whole_block)
    have IH: "cbc_decrypt D c (cbc_encrypt E c (drop 16 bs)) = drop 16 bs"
      using "1.IH" [OF False c [unfolded c_def] rest "1.prems"(3)] unfolding c_def .
    have enc: "cbc_encrypt E prev bs = c @ cbc_encrypt E c (drop 16 bs)"
      using False unfolding c_def by (subst cbc_encrypt.simps) simp
    have first: "xor_block (D c) prev = take 16 bs"
      unfolding dc using len "1.prems"(1) by (simp add: xor_block_cancel)
    have "cbc_decrypt D prev (c @ cbc_encrypt E c (drop 16 bs))
            = take 16 bs @ drop 16 bs"
    proof -
      have ne: "c @ cbc_encrypt E c (drop 16 bs) \<noteq> []" using c by auto
      show ?thesis
        using c first IH by (subst cbc_decrypt.simps) (simp add: ne del: append_is_Nil_conv)
    qed
    then show ?thesis unfolding enc by simp
  qed
qed


subsection \<open>Round trip\<close>

lemma cut_at_colon:
  "CHR '':'' \<notin> set a \<Longrightarrow>
     takeWhile (\<lambda>c. c \<noteq> CHR '':'') (a @ CHR '':'' # b) = a
     \<and> tl (dropWhile (\<lambda>c. c \<noteq> CHR '':'') (a @ CHR '':'' # b)) = b"
  by (induction a) auto

lemma decrypt_encrypt:
  assumes k: "\<forall>b. length b = 16 \<longrightarrow>
                length (encrypt_block k b) = 16 \<and> decrypt_block k (encrypt_block k b) = b"
    and iv: "length iv = 16"
    and x: "x \<noteq> []"
  shows "decrypt k (encrypt k iv x) = Inr x"
proof -
  define padded where "padded = pkcs7_pad (utf8_bytes x)"
  define data where "data = cbc_encrypt (encrypt_block k) iv padded"
  have padded: "length padded mod 16 = 0" "padded \<noteq> []"
    using length_pkcs7_pad [of "utf8_bytes x"] by (simp_all add: padded_def)
  have E: "\<forall>b. length b = 16 \<longrightarrow> length (encrypt_block k b) = 16" using k by blast
  have len: "length data = length padded"
    unfolding data_def using cbc_encrypt_length [OF E iv padded(1)] .
  have data: "data \<noteq> []" "length data mod 16 = 0"
    using len padded by auto
  have plain: "cbc_decrypt (decrypt_block k) iv data = padded"
    unfolding data_def using cbc_roundtrip [OF k iv padded(1)] .
  have enc: "encrypt k iv x = toHex iv @ CHR '':'' # toHex data"
    using x by (simp add: encrypt_def data_def padded_def)
  have cut: "takeWhile (\<lambda>c. c \<noteq> CHR '':'') (toHex iv @ CHR '':'' # toHex data) = toHex iv"
            "tl (dropWhile (\<lambda>c. c \<noteq> CHR '':'') (toHex iv @ CHR '':'' # toHex data)) = toHex data"
    using cut_at_colon [OF colon_notin_toHex, of iv "toHex data"] by simp_all
  show ?thesis
    unfolding enc decrypt_def cut Let_def fromHex_toHex plain
    using iv data by (simp add: padded_def pkcs7_roundtrip utf8_roundtrip length_toHex)
qed

text \<open>
  C6. Under a block cipher whose decryption inverts its encryption on 16-byte blocks
  (as AES under one key does) and with a 16-byte initialization vector, decrypting
  the encryption of a non-empty string without the delimiter gives the string back;
  the empty string is encrypted to itself; a string without the delimiter is
  decrypted to itself. (Strings are taken with their UTF-8 bytes, so a string is one
  that its UTF-8 encoding represents without loss.)
\<close>

theorem vault_roundtrip:
  assumes "\<forall>b. length b = 16 \<longrightarrow>
             length (encrypt_block k b) = 16 \<and> decrypt_block k (encrypt_block k b) = b"
    and "length iv = 16"
  shows "(x \<noteq> [] \<and> CHR '':'' \<notin> set x \<longrightarrow> decrypt k (encrypt k iv x) = Inr x)
         \<and> encrypt k iv [] = []
         \<and> (CHR '':'' \<notin> set y \<longrightarrow> decrypt k y = Inr y)"
  using decrypt_encrypt [OF assms] by (simp add: encrypt_def decrypt_def)

theorem vault_roundtrip_witness:
  "decrypt shift_cipher (encrypt shift_cipher counting_iv ''s3cret'') = Inr ''s3cret''
   \<and> encrypt shift_cipher counting_iv [] = []
   \<and> decrypt shift_cipher ''s3cret'' = Inr ''s3cret''"
proof -
  have k: "\<forall>b. length b = 16 \<longrightarrow>
             length (encrypt_block shift_cipher b) = 16
             \<and> decrypt_block shift_cipher (encrypt_block shift_cipher b) = b"
    by (simp add: shift_cipher_def comp_def)
  have iv: "length counting_iv = 16" by (simp add: counting_iv_def)
  show ?thesis
    using vault_roundtrip [OF k iv, of "''s3cret''" "''s3cret''"] by simp
qed

text \<open>
  C3. The claim: \<^verbatim>\<open>decrypt\<close> does not raise on text that has the delimiter and is
  not vault ciphertext. It does: the text \<^verbatim>\<open>abc:def\<close> has a one-byte initialization
  vector, which \<^verbatim>\<open>createDecipheriv\<close> refuses.
\<close>

theorem decrypt_raises_on_malformed: "decrypt shift_cipher ''abc:def'' = Inl InvalidIV"
  by (simp add: decrypt_def hex_value_def)

lemma pkcs7_unpad_cases:
  "pkcs7_unpad bs =
     (if bs = [] then Inl WrongFinalBlockLength
      else if valid_padding bs then Inr (take (length bs - unat (last bs)) bs)
      else Inl BadDecrypt)"
  by (auto simp: pkcs7_unpad_def valid_padding_def Let_def)

text \<open>
  C3, as the code has it. On text with the delimiter \<^verbatim>\<open>decrypt\<close> raises, unless the
  text has the form of ciphertext and decrypts to padded data. With \<open>iv\<close> the bytes
  that the part before the first delimiter decodes to, \<open>rest\<close> the part after it and
  \<open>plain\<close> the decryption of the bytes of \<open>rest\<close> under the key:
  \<^item> it raises when \<open>iv\<close> is not 16 bytes long;
  \<^item> otherwise it raises when \<open>rest\<close> has an odd number of characters;
  \<^item> otherwise it raises when \<open>rest\<close> does not decode to a positive number of whole
    blocks;
  \<^item> otherwise it raises when \<open>plain\<close> does not end in a padding, as is to be
    expected of ciphertext written under another key;
  \<^item> otherwise it returns \<open>plain\<close> without its padding, as text.
\<close>

theorem decrypt_with_delimiter:
  fixes k :: block_cipher and s :: string
  defines "iv \<equiv> fromHex (takeWhile (\<lambda>c. c \<noteq> CHR '':'') s)"
      and "rest \<equiv> tl (dropWhile (\<lambda>c. c \<noteq> CHR '':'') s)"
  defines "plain \<equiv> cbc_decrypt (decrypt_block k) iv (fromHex rest)"
  assumes "CHR '':'' \<in> set s"
  shows "(length iv \<noteq> 16 \<longrightarrow> decrypt k s = Inl InvalidIV)
       \<and> (length iv = 16 \<and> odd (length rest) \<longrightarrow> decrypt k s = Inl InvalidHexLength)
       \<and> (length iv = 16 \<and> even (length rest)
            \<and> (fromHex rest = [] \<or> length (fromHex rest) mod 16 \<noteq> 0)
            \<longrightarrow> decrypt k s = Inl WrongFinalBlockLength)
       \<and> (length iv = 16 \<and> even (length rest)
            \<and> fromHex rest \<noteq> [] \<and> length (fromHex rest) mod 16 = 0
            \<and> plain \<noteq> [] \<and> \<not> valid_padding plain
            \<longrightarrow> decrypt k s = Inl BadDecrypt)
       \<and> (length iv = 16 \<and> even (length rest)
            \<and> fromHex rest \<noteq> [] \<and> length (fromHex rest) mod 16 = 0
            \<and> valid_padding plain
            \<longrightarrow> decrypt k s
                  = Inr (utf8_string (take (length plain - unat (last plain)) plain)))"
proof -
  have ne: "s \<noteq> []" using assms by auto
  have v: "valid_padding plain \<Longrightarrow> plain \<noteq> []" by (simp add: valid_padding_def)
  show ?thesis
    using assms(4) ne v
    by (auto simp: decrypt_def Let_def pkcs7_unpad_cases iv_def rest_def plain_def)
qed

theorem decrypt_with_delimiter_witness:
  "decrypt shift_cipher ''abc:def'' = Inl InvalidIV
   \<and> decrypt shift_cipher ''000102030405060708090a0b0c0d0e0f:dead'' = Inl WrongFinalBlockLength
   \<and> decrypt shift_cipher
         ''000102030405060708090a0b0c0d0e0f:00000000000000000000000000000000''
       = Inl BadDecrypt
   \<and> decrypt shift_cipher
         ''00000000000000000000000000000000:02020202020202020202020202020202''
       = Inr (replicate 15 (CHR 0x01))"
proof -
  let ?iv = "\<lambda>text. fromHex (takeWhile (\<lambda>c. c \<noteq> CHR '':'') text)"
  let ?rest = "\<lambda>text. tl (dropWhile (\<lambda>c. c \<noteq> CHR '':'') text)"
  let ?plain = "\<lambda>text. cbc_decrypt (decrypt_block shift_cipher) (?iv text) (fromHex (?rest text))"
  let ?a = "''abc:def''"
  let ?b = "''000102030405060708090a0b0c0d0e0f:dead''"
  let ?c = "''000102030405060708090a0b0c0d0e0f:00000000000000000000000000000000''"
  let ?d = "''00000000000000000000000000000000:02020202020202020202020202020202''"
  have a: "length (?iv ?a) \<noteq> 16" by (simp add: hex_value_def)
  have b: "length (?iv ?b) = 16" "even (length (?rest ?b))"
          "length (fromHex (?rest ?b)) mod 16 \<noteq> 0"
    by (simp_all add: hex_value_def)
  have c: "length (?iv ?c) = 16" "even (length (?rest ?c))"
          "fromHex (?rest ?c) \<noteq> []" "length (fromHex (?rest ?c)) mod 16 = 0"
    by (simp_all add: hex_value_def)
  have cp: "?plain ?c \<noteq> []" "\<not> valid_padding (?plain ?c)"
    by code_simp+
  have d: "length (?iv ?d) = 16" "even (length (?rest ?d))"
          "fromHex (?rest ?d) \<noteq> []" "length (fromHex (?rest ?d)) mod 16 = 0"
    by (simp_all add: hex_value_def)
  have dp: "valid_padding (?plain ?d)"
    by code_simp
  have dr: "utf8_string (take (length (?plain ?d) - unat (last (?plain ?d))) (?plain ?d))
              = replicate 15 (CHR 0x01)"
    by code_simp
  have r1: "decrypt shift_cipher ?a = Inl InvalidIV"
    using decrypt_with_delimiter [where s = "?a" and k = shift_cipher] a by simp
  have r2: "decrypt shift_cipher ?b = Inl WrongFinalBlockLength"
    using decrypt_with_delimiter [where s = "?b" and k = shift_cipher] b by simp
  have r3: "decrypt shift_cipher ?c = Inl BadDecrypt"
    using decrypt_with_delimiter [where s = "?c" and k = shift_cipher] c cp by simp
  have r4: "decrypt shift_cipher ?d = Inr (replicate 15 (CHR 0x01))"
    using decrypt_with_delimiter [where s = "?d" and k = shift_cipher] d dp dr by simp
  show ?thesis using r1 r2 r3 r4 by simp
qed

section \<open>Properties of the history persister\<close>

lemma split_slash_plain: "CHR ''/'' \<notin> set s \<Longrightarrow> split_slash s = [s]"
  by (induction s) auto

lemma historyFile_plain:
  assumes "CHR ''/'' \<notin> set serviceName"
  shows "historyFile serviceName = HISTORY_DIR @ [serviceName @ ''.json'']"
proof -
  have "CHR ''/'' \<notin> set (serviceName @ ''.json'')" using assms by simp
  then have s: "split_slash (serviceName @ ''.json'') = [serviceName @ ''.json'']"
    by (rule split_slash_plain)
  have "length (serviceName @ ''.json'') \<ge> 5" by simp
  then have w: "walk (serviceName @ ''.json'') p = (serviceName @ ''.json'') # p" for p
    by (auto simp: walk_def)
  show ?thesis by (simp add: historyFile_def path_join_def s w)
qed



section \<open>Properties of the status listing\<close>




lemma member_of_ordinary:
  "ordinary key \<Longrightarrow>
     member_of table key = (case table key of Some v \<Rightarrow> Stored v | None \<Rightarrow> Missing)"
  by (auto simp: member_of_def ordinary_def object_prototype_def split: option.splits)

lemma ordinary_B: "ordinary ''B''"
  by (simp add: ordinary_def object_prototype_def)







section \<open>Properties of the dispatcher\<close>

lemma then_do_None [simp]: "then_do ([], None) eff = eff"
  by (cases eff) simp

lemma try_send_no_call: "filter is_dispatch_call (fst (try_send ch n outcome)) = []"
  by (cases outcome) (simp_all add: try_send_def)

lemma then_do_events:
  "filter is_dispatch_call (fst (then_do a b))
     = filter is_dispatch_call (fst a)
       @ (if snd a = None then filter is_dispatch_call (fst b) else [])"
  by (cases a; cases "snd a"; cases b) auto

lemma sender_no_call:
  "filter is_dispatch_call (fst (sendEmailNotification send st r n)) = []"
  "filter is_dispatch_call (fst (sendTeamsNotification send st r n)) = []"
  "filter is_dispatch_call (fst (sendSmsNotification send st r n)) = []"
  "filter is_dispatch_call (fst (sendIphoneNotification send st r n)) = []"
  by (simp_all add: sendEmailNotification_def sendTeamsNotification_def
        sendSmsNotification_def sendIphoneNotification_def try_send_no_call)

lemma sendNotifications_calls:
  "filter is_dispatch_call (fst (sendNotifications k send st r prev))
     = [DispatchCalled (name r) prev (status r)]"
  by (cases "loadedNotifications k st")
     (simp_all add: sendNotifications_def then_do_events sender_no_call)

lemma sendNotifications_no_change:
  "loadedNotifications k st = Some n \<Longrightarrow>
   sendNotifications k send st r (status r)
     = ([DispatchCalled (name r) (status r) (status r)], None)"
  by (simp add: sendNotifications_def)

lemma member_of_Inherited:
  "ordinary key \<Longrightarrow> member_of table key \<noteq> Inherited len"
  by (simp add: member_of_ordinary split: option.splits)

lemma previousStatusOf_ordinary:
  "ordinary n \<Longrightarrow>
     previousStatusOf st n
       = (case serviceStatuses st n of None \<Rightarrow> Unknown | Some previousEntry \<Rightarrow> status previousEntry)"
  by (simp add: previousStatusOf_def member_of_ordinary split: option.splits)

text \<open>A pass for a service with an ordinary name whose history is saved.\<close>

lemma updateService_ordinary:
  assumes "ordinary (name r)" and "writes env (historyFile (name r))"
  shows "updateService k env now r st
           = (st\<lparr>files := (files st)(historyFile (name r) \<mapsto>
                      HistoryJson
                        (filter (\<lambda>entry. isAfter (timestamp entry) (ninetyDaysBefore env now))
                           ((case serviceHistories st (name r) of None \<Rightarrow> [] | Some h \<Rightarrow> h)
                            @ [entry_of r]))),
                  serviceHistories := (serviceHistories st)(name r \<mapsto>
                        filter (\<lambda>entry. isAfter (timestamp entry) (ninetyDaysBefore env now))
                           ((case serviceHistories st (name r) of None \<Rightarrow> [] | Some h \<Rightarrow> h)
                            @ [entry_of r])),
                  serviceStatuses := (serviceStatuses st)(name r \<mapsto> r)\<rparr>,
              if previousStatusOf st (name r) \<noteq> status r
              then sendNotifications k (provider env (name r))
                     (st\<lparr>files := (files st)(historyFile (name r) \<mapsto>
                      HistoryJson
                        (filter (\<lambda>entry. isAfter (timestamp entry) (ninetyDaysBefore env now))
                           ((case serviceHistories st (name r) of None \<Rightarrow> [] | Some h \<Rightarrow> h)
                            @ [entry_of r]))),
                  serviceHistories := (serviceHistories st)(name r \<mapsto>
                        filter (\<lambda>entry. isAfter (timestamp entry) (ninetyDaysBefore env now))
                           ((case serviceHistories st (name r) of None \<Rightarrow> [] | Some h \<Rightarrow> h)
                            @ [entry_of r])),
                  serviceStatuses := (serviceStatuses st)(name r \<mapsto> r)\<rparr>)
                     r (previousStatusOf st (name r))
              else ([], None))"
  using assms
  by (cases "serviceHistories st (name r)")
     (simp_all add: updateService_def Let_def saveServiceHistory_def member_of_ordinary)

lemma updateService_statuses:
  "serviceStatuses (fst (updateService k env now r st)) = serviceStatuses st
   \<or> serviceStatuses (fst (updateService k env now r st)) = (serviceStatuses st)(name r \<mapsto> r)"
  by (cases "member_of (serviceHistories st) (name r)")
     (simp_all add: updateService_def Let_def saveServiceHistory_def)

lemma updateService_previous_other:
  "n \<noteq> name r \<Longrightarrow> previousStatusOf (fst (updateService k env now r st)) n = previousStatusOf st n"
  using updateService_statuses [of k env now r st]
  by (auto simp: previousStatusOf_def member_of_def)

lemma updateService_fanOuts:
  "fanOuts (fst (updateService k env now r st)) = fanOuts st"
  by (cases "member_of (serviceHistories st) (name r)")
     (simp_all add: updateService_def Let_def saveServiceHistory_def)

text \<open>A pass that does not throw has reached the comparison of the statuses.\<close>

lemma updateService_calls:
  "snd (snd (updateService k env now r st)) = None \<Longrightarrow>
   filter is_dispatch_call (fst (snd (updateService k env now r st)))
     = (if previousStatusOf st (name r) \<noteq> status r
        then [DispatchCalled (name r) (previousStatusOf st (name r)) (status r)] else [])"
  by (cases "member_of (serviceHistories st) (name r)")
     (auto simp: updateService_def Let_def saveServiceHistory_def sendNotifications_calls
           split: if_splits)

lemma updateAll_calls:
  "distinct (map name rs) \<Longrightarrow> snd (snd (updateAll k env clock i rs st)) = None \<Longrightarrow>
   filter is_dispatch_call (fst (snd (updateAll k env clock i rs st)))
     = map (\<lambda>r. DispatchCalled (name r) (previousStatusOf st (name r)) (status r))
         (filter (\<lambda>r. previousStatusOf st (name r) \<noteq> status r) rs)"
proof (induction rs arbitrary: i st)
  case Nil
  show ?case by simp
next
  case (Cons r rs)
  obtain st' evs err where u: "updateService k env (clock i) r st = (st', evs, err)"
    by (cases "updateService k env (clock i) r st") auto
  obtain st'' eff where a: "updateAll k env clock (Suc i) rs st' = (st'', eff)"
    by (cases "updateAll k env clock (Suc i) rs st'") auto
  have err: "err = None" using Cons.prems(2) u by (cases err) auto
  have effN: "snd eff = None" using Cons.prems(2) u a err by (cases eff) auto
  have st': "st' = fst (updateService k env (clock i) r st)" using u by simp
  have prev: "previousStatusOf st' (name x) = previousStatusOf st (name x)" if "x \<in> set rs" for x
  proof -
    have "name r \<notin> name ` set rs" using Cons.prems(1) by simp
    then have "name x \<noteq> name r" using that by (metis imageI)
    then show ?thesis unfolding st' by (rule updateService_previous_other)
  qed
  have IH: "filter is_dispatch_call (fst eff)
     = map (\<lambda>r. DispatchCalled (name r) (previousStatusOf st' (name r)) (status r))
         (filter (\<lambda>r. previousStatusOf st' (name r) \<noteq> status r) rs)"
    using Cons.IH [of "Suc i" st'] Cons.prems(1) effN a by simp
  have rest: "filter is_dispatch_call (fst eff)
     = map (\<lambda>r. DispatchCalled (name r) (previousStatusOf st (name r)) (status r))
         (filter (\<lambda>r. previousStatusOf st (name r) \<noteq> status r) rs)"
    unfolding IH using prev by (auto intro!: map_cong filter_cong)
  have head: "filter is_dispatch_call evs
     = (if previousStatusOf st (name r) \<noteq> status r
        then [DispatchCalled (name r) (previousStatusOf st (name r)) (status r)] else [])"
    using updateService_calls [of k env "clock i" r st] u err by simp
  have "fst (snd (updateAll k env clock i (r # rs) st)) = evs @ fst eff"
    using u a err by (cases eff) simp
  then show ?case using head rest by simp
qed

text \<open>
  C2. The claim: in a cycle the dispatcher is entered for a service exactly when its
  previous status differs from the new one, so that a first check always alerts. The
  name of a service is free. For a service named \<^verbatim>\<open>constructor\<close> that has no stored
  result and no stored history, the pass finds the inherited member as its history, the
  push throws, and the first check of the service, which is up, enters no dispatch.
  For a service named \<^verbatim>\<open>a/b\<close> the history file lies in a directory that does not
  exist, the save throws, and the first check enters no dispatch either.
\<close>

theorem first_check_of_inherited_name_does_not_dispatch:
  "serviceStatuses (process_start [service_constructor] None) ''constructor'' = None
   \<and> status (checkService service_constructor (axios_get (HttpResponse 200)) 1000 1042 1042)
       = Up
   \<and> snd (updateService shift_cipher calm 1050
            (checkService service_constructor (axios_get (HttpResponse 200)) 1000 1042 1042)
            (process_start [service_constructor] None))
       = ([], Some (TypeError ''serviceHistories[result.name].push is not a function''))
   \<and> serviceStatuses (process_start [service_slash] None) ''a/b'' = None
   \<and> snd (updateService shift_cipher flat_disk 1050
            (checkService service_slash (axios_get (HttpResponse 200)) 1000 1042 1042)
            (process_start [service_slash] None))
       = ([], Some (Error ''writeFile''))"
proof -
  have r: "checkService service_constructor (axios_get (HttpResponse 200)) 1000 1042 1042
             = \<lparr>name = ''constructor'', url = ''http://c.example/health'', status = Up,
                statusCode = Some 200, responseTime = Some 42,
                lastChecked = Some 1042, error = None\<rparr>"
    by (simp add: checkService_def axios_get_def service_constructor_def or_default_def)
  have r': "checkService service_slash (axios_get (HttpResponse 200)) 1000 1042 1042
             = \<lparr>name = ''a/b'', url = ''http://ab.example/health'', status = Up,
                statusCode = Some 200, responseTime = Some 42,
                lastChecked = Some 1042, error = None\<rparr>"
    by (simp add: checkService_def axios_get_def service_slash_def or_default_def)
  have p: "historyFile ''a/b'' = [''app'', ''config'', ''history'', ''a'', ''b.json'']"
    by (simp add: historyFile_def path_join_def walk_def HISTORY_DIR_def CONFIG_DIR_def)
  have w: "\<not> writes flat_disk (historyFile ''a/b'')"
    unfolding p by (simp add: flat_disk_def HISTORY_DIR_def CONFIG_DIR_def)
  have a: "snd (updateService shift_cipher calm 1050
            \<lparr>name = ''constructor'', url = ''http://c.example/health'', status = Up,
                statusCode = Some 200, responseTime = Some 42,
                lastChecked = Some 1042, error = None\<rparr>
            (process_start [service_constructor] None))
       = ([], Some (TypeError ''serviceHistories[result.name].push is not a function''))"
    by (simp add: updateService_def Let_def process_start_def member_of_def
          object_prototype_def)
  have b: "snd (updateService shift_cipher flat_disk 1050
            \<lparr>name = ''a/b'', url = ''http://ab.example/health'', status = Up,
                statusCode = Some 200, responseTime = Some 42,
                lastChecked = Some 1042, error = None\<rparr>
            (process_start [service_slash] None))
       = ([], Some (Error ''writeFile''))"
    using w
    by (simp add: updateService_def Let_def process_start_def member_of_def
          object_prototype_def saveServiceHistory_def)
  show ?thesis
    unfolding r r' a b by (simp add: process_start_def)
qed

text \<open>
  C2, as the code has it. Take a pass of the update loop for a result whose name is not
  the name of a member that every object inherits and whose history the disk lets it
  save. The dispatcher is entered exactly when the previous status (that of the stored
  result, or unknown when there is none) differs from the status of the result, and it
  is entered once; when the two are equal the pass produces no event at all. If the
  result is one of \<^verbatim>\<open>checkService\<close> for a service without a stored result, the
  dispatcher is entered, since that status is never unknown. \<^verbatim>\<open>sendNotifications\<close>
  itself, once it has loaded settings, does nothing beyond being entered when it is
  given a previous status equal to the result's. Over a whole cycle on services with
  distinct names that runs to its end, the dispatcher is entered for exactly the
  results whose status differs from the previous status before the cycle, in the order
  of the list.
\<close>

theorem dispatch_iff_status_changed:
  "(ordinary (name r) \<and> writes env (historyFile (name r)) \<longrightarrow>
      (list_ex is_dispatch_call (fst (snd (updateService k env now r st)))
         \<longleftrightarrow> previousStatusOf st (name r) \<noteq> status r)
      \<and> filter is_dispatch_call (fst (snd (updateService k env now r st)))
          = (if previousStatusOf st (name r) \<noteq> status r
             then [DispatchCalled (name r) (previousStatusOf st (name r)) (status r)] else [])
      \<and> previousStatusOf st (name r)
          = (case serviceStatuses st (name r) of
               None \<Rightarrow> Unknown
             | Some previousEntry \<Rightarrow> status previousEntry)
      \<and> (previousStatusOf st (name r) = status r
           \<longrightarrow> snd (updateService k env now r st) = ([], None)))
   \<and> (ordinary (name service) \<and> writes env (historyFile (name service))
        \<and> serviceStatuses st (name service) = None \<longrightarrow>
        filter is_dispatch_call
          (fst (snd (updateService k env now (checkService service outcome t0 t1 t2) st)))
          = [DispatchCalled (name service) Unknown
               (status (checkService service outcome t0 t1 t2))])
   \<and> (loadedNotifications k st \<noteq> None \<longrightarrow>
        sendNotifications k send st r (status r)
          = ([DispatchCalled (name r) (status r) (status r)], None))
   \<and> (distinct (map name rs) \<and> snd (snd (updateAll k env clock i rs st)) = None \<longrightarrow>
        filter is_dispatch_call (fst (snd (updateAll k env clock i rs st)))
          = map (\<lambda>r. DispatchCalled (name r) (previousStatusOf st (name r)) (status r))
              (filter (\<lambda>r. previousStatusOf st (name r) \<noteq> status r) rs))"
proof -
  have ex: "list_ex is_dispatch_call evs \<longleftrightarrow> filter is_dispatch_call evs \<noteq> []" for evs
    by (induction evs) auto
  have calls: "filter is_dispatch_call (fst (snd (updateService k env now x st)))
          = (if previousStatusOf st (name x) \<noteq> status x
             then [DispatchCalled (name x) (previousStatusOf st (name x)) (status x)] else [])"
    if "ordinary (name x)" "writes env (historyFile (name x))" for x
    unfolding updateService_ordinary [OF that] by (simp add: sendNotifications_calls)
  have a: "list_ex is_dispatch_call (fst (snd (updateService k env now r st)))
      \<longleftrightarrow> previousStatusOf st (name r) \<noteq> status r"
    if "ordinary (name r)" "writes env (historyFile (name r))"
    unfolding ex calls [OF that] by simp
  have c: "snd (updateService k env now r st) = ([], None)"
    if "ordinary (name r)" "writes env (historyFile (name r))"
       "previousStatusOf st (name r) = status r"
    unfolding updateService_ordinary [OF that(1,2)] using that(3) by simp
  have d: "filter is_dispatch_call
          (fst (snd (updateService k env now (checkService service outcome t0 t1 t2) st)))
          = [DispatchCalled (name service) Unknown
               (status (checkService service outcome t0 t1 t2))]"
    if "ordinary (name service)" "writes env (historyFile (name service))"
       "serviceStatuses st (name service) = None"
  proof -
    let ?r = "checkService service outcome t0 t1 t2"
    have n: "name ?r = name service" by (rule checkService_name)
    have "previousStatusOf st (name ?r) = Unknown"
      using that by (simp add: previousStatusOf_ordinary n)
    moreover have "status ?r \<noteq> Unknown"
      by (rule checkService_status_up_or_down)
    ultimately show ?thesis
      using calls [of ?r] that by (simp add: n)
  qed
  have e: "sendNotifications k send st r (status r)
          = ([DispatchCalled (name r) (status r) (status r)], None)"
    if "loadedNotifications k st \<noteq> None"
    using that sendNotifications_no_change [of k st _ send r] by auto
  show ?thesis
    using a calls [of r] c d e previousStatusOf_ordinary [of "name r" st]
          updateAll_calls [of rs k env clock i st]
    by blast
qed

lemma checkAllServices_alone:
  "checkAllServices k env clock probes services st
     = updateAll k env clock 0
         (map (\<lambda>service. checkService service (settled (probes service))
                 (startedAt (probes service)) (endedAt (probes service))
                 (checkedAt (probes service))) services) st"
  by (simp add: checkAllServices_def endCycle_def beginCycle_def Let_def)

lemma updateAll_one:
  "fst (updateAll k env clock i [r] st) = fst (updateService k env (clock i) r st)"
  by (simp split: prod.splits option.splits)

lemma result_B:
  "checkService service_B (axios_get (HttpResponse 200)) t0 t1 t2
     = \<lparr>name = ''B'', url = ''http://b.example/health'', status = Up,
        statusCode = Some 200, responseTime = Some (t1 - t0),
        lastChecked = Some t2, error = None\<rparr>"
  by (simp add: checkService_def axios_get_def service_B_def or_default_def)

lemma historyFile_B: "historyFile ''B'' = [''app'', ''config'', ''history'', ''B.json'']"
  using historyFile_plain [of "''B''"] by (simp add: HISTORY_DIR_def CONFIG_DIR_def)

lemma calm_fields:
  "writes calm p" "unlinks calm p" "provider calm = accepting"
  "ninetyDaysBefore calm now = now - 7776000000"
  by (simp_all add: calm_def)

lemma first_cycle_state:
  "first_cycle
     = (process_start [service_B] None)
         \<lparr>files := (files (process_start [service_B] None))
                     ([''app'', ''config'', ''history'', ''B.json''] \<mapsto>
                        HistoryJson [\<lparr>timestamp = Some 1042, entryStatus = Up,
                                      entryStatusCode = Some 200, entryResponseTime = Some 42,
                                      entryError = None\<rparr>]),
           serviceHistories := [''B'' \<mapsto> [\<lparr>timestamp = Some 1042, entryStatus = Up,
                                      entryStatusCode = Some 200, entryResponseTime = Some 42,
                                      entryError = None\<rparr>]],
           serviceStatuses := [''B'' \<mapsto> \<lparr>name = ''B'', url = ''http://b.example/health'',
                                 status = Up, statusCode = Some 200, responseTime = Some 42,
                                 lastChecked = Some 1042, error = None\<rparr>]\<rparr>"
proof -
  let ?r = "\<lparr>name = ''B'', url = ''http://b.example/health'', status = Up,
        statusCode = Some 200, responseTime = Some 42,
        lastChecked = Some 1042, error = None\<rparr> :: check_result"
  have o: "ordinary (name ?r)" using ordinary_B by simp
  have w: "writes calm (historyFile (name ?r))" by (simp add: calm_fields)
  have "first_cycle
          = fst (updateService shift_cipher calm 1050 ?r (process_start [service_B] None))"
    by (simp add: first_cycle_def checkAllServices_alone updateAll_one probe_200_def result_B
          del: updateAll.simps)
  also have "\<dots> = (process_start [service_B] None)
         \<lparr>files := (files (process_start [service_B] None))
                     ([''app'', ''config'', ''history'', ''B.json''] \<mapsto>
                        HistoryJson [\<lparr>timestamp = Some 1042, entryStatus = Up,
                                      entryStatusCode = Some 200, entryResponseTime = Some 42,
                                      entryError = None\<rparr>]),
           serviceHistories := [''B'' \<mapsto> [\<lparr>timestamp = Some 1042, entryStatus = Up,
                                      entryStatusCode = Some 200, entryResponseTime = Some 42,
                                      entryError = None\<rparr>]],
           serviceStatuses := [''B'' \<mapsto> ?r]\<rparr>"
    unfolding updateService_ordinary [OF o w]
    by (simp add: historyFile_B calm_fields entry_of_def isAfter_def process_start_def)
  finally show ?thesis .
qed

theorem dispatch_iff_status_changed_witness:
  "filter is_dispatch_call
     (fst (snd (updateService shift_cipher calm 1050
                  (checkService service_B (axios_get (HttpResponse 200)) 1000 1042 1042)
                  (process_start [service_B] None))))
     = [DispatchCalled ''B'' Unknown Up]
   \<and> snd (updateService shift_cipher calm 31050
            (checkService service_B (axios_get (HttpResponse 200)) 31000 31042 31042)
            first_cycle) = ([], None)"
proof -
  let ?r0 = "checkService service_B (axios_get (HttpResponse 200)) 1000 1042 1042"
  let ?r1 = "checkService service_B (axios_get (HttpResponse 200)) 31000 31042 31042"
  have nm: "name service_B = ''B''" by (simp add: service_B_def)
  have o: "ordinary (name service_B)" "ordinary (name ?r1)"
    using ordinary_B by (simp_all add: nm result_B)
  have w: "writes calm (historyFile (name service_B))" "writes calm (historyFile (name ?r1))"
    by (simp_all add: calm_fields)
  have s: "serviceStatuses (process_start [service_B] None) (name service_B) = None"
    by (simp add: process_start_def)
  have st: "status ?r0 = Up" by (simp add: result_B)
  have p: "previousStatusOf first_cycle (name ?r1) = status ?r1"
    using o(2) by (simp add: previousStatusOf_ordinary) (simp add: result_B first_cycle_state)
  have A: "filter is_dispatch_call
     (fst (snd (updateService shift_cipher calm 1050 ?r0 (process_start [service_B] None))))
     = [DispatchCalled (name service_B) Unknown (status ?r0)]"
    using dispatch_iff_status_changed
            [of _ calm shift_cipher 1050 "process_start [service_B] None" service_B
                "axios_get (HttpResponse 200)" 1000 1042 1042] o(1) w(1) s
    by blast
  have B: "snd (updateService shift_cipher calm 31050 ?r1 first_cycle) = ([], None)"
    using dispatch_iff_status_changed [of ?r1 calm shift_cipher 31050 first_cycle] o(2) w(2) p
    by blast
  show ?thesis unfolding A B st nm by simp
qed

section \<open>Removal of a service\<close>

lemma deleteService_clears:
  assumes "deleteService env n services st = (Inr 204, st')"
  shows "serviceStatuses st' n = None" and "serviceHistories st' n = None"
    and "unlinks env (historyFile n) \<Longrightarrow> files st' (historyFile n) = None"
  using assms by (auto simp: deleteService_def Let_def split: if_splits)

lemma deleteService_B:
  "deleteService calm ''B'' [service_B] first_cycle
     = (Inr 204,
        first_cycle\<lparr>files := ((files first_cycle)(SERVICES_FILE \<mapsto> ServicesJson []))
                                (historyFile ''B'' := None),
                    serviceStatuses := (serviceStatuses first_cycle)(''B'' := None),
                    serviceHistories := (serviceHistories first_cycle)(''B'' := None)\<rparr>)"
  by (simp add: deleteService_def Let_def calm_fields) (simp add: service_B_def)

text \<open>
  C4. The claim: a check result for a service that has been removed is processed
  without a write, so that the service's history file stays absent. The update loop
  has no such test. After the first cycle service \<^verbatim>\<open>B\<close> is removed, which deletes its
  history file; the result of a probe that was in flight is then processed, and the
  file is there again.
\<close>

theorem removed_service_history_file_returns:
  "fst (deleteService calm ''B'' [service_B] first_cycle) = Inr 204
   \<and> files (snd (deleteService calm ''B'' [service_B] first_cycle))
       [''app'', ''config'', ''history'', ''B.json''] = None
   \<and> files
       (fst (updateService shift_cipher calm 31050
               (checkService service_B (axios_get (HttpResponse 200)) 31000 31042 31042)
               (snd (deleteService calm ''B'' [service_B] first_cycle))))
       [''app'', ''config'', ''history'', ''B.json'']
       = Some (HistoryJson
                 [\<lparr>timestamp = Some 31042, entryStatus = Up, entryStatusCode = Some 200,
                   entryResponseTime = Some 42, entryError = None\<rparr>])"
proof -
  let ?r = "\<lparr>name = ''B'', url = ''http://b.example/health'', status = Up,
        statusCode = Some 200, responseTime = Some 42,
        lastChecked = Some 31042, error = None\<rparr> :: check_result"
  have r: "checkService service_B (axios_get (HttpResponse 200)) 31000 31042 31042 = ?r"
    by (simp add: result_B)
  have o: "ordinary (name ?r)" using ordinary_B by simp
  have w: "writes calm (historyFile (name ?r))" by (simp add: calm_fields)
  show ?thesis
    unfolding r deleteService_B updateService_ordinary [OF o w]
    by (simp add: historyFile_B calm_fields entry_of_def isAfter_def)
qed

text \<open>
  C4, as the code has it. Let a service be removed, with the answer 204 and its history
  file unlinked, and let a check result that carries its name be processed afterwards,
  the name not being the name of a member that every object inherits and the disk
  letting the history be saved. The pass creates the history anew: afterwards the
  in-memory history and the file at the path of the service's history both hold the
  entry of the result alone (nothing when the entry is not less than 90 days old at the
  save), and the result is stored as the current status. The stored values of other
  names and the files at other paths are as they were.
\<close>

theorem update_after_removal_recreates:
  assumes "deleteService env (name r) services st = (Inr 204, st')"
      and "unlinks env (historyFile (name r))"
      and "ordinary (name r)"
      and "writes env' (historyFile (name r))"
  shows "files st' (historyFile (name r)) = None
       \<and> files (fst (updateService k env' now r st')) (historyFile (name r))
           = Some (HistoryJson
                     (filter (\<lambda>entry. isAfter (timestamp entry) (ninetyDaysBefore env' now))
                        [entry_of r]))
       \<and> serviceHistories (fst (updateService k env' now r st')) (name r)
           = Some (filter (\<lambda>entry. isAfter (timestamp entry) (ninetyDaysBefore env' now))
                     [entry_of r])
       \<and> serviceStatuses (fst (updateService k env' now r st')) (name r) = Some r
       \<and> (\<forall>other. other \<noteq> name r \<longrightarrow>
             serviceHistories (fst (updateService k env' now r st')) other
               = serviceHistories st' other
             \<and> serviceStatuses (fst (updateService k env' now r st')) other
                 = serviceStatuses st' other)
       \<and> (\<forall>p. p \<noteq> historyFile (name r) \<longrightarrow>
             files (fst (updateService k env' now r st')) p = files st' p)"
  using deleteService_clears [OF assms(1)] assms(2)
  unfolding updateService_ordinary [OF assms(3,4)]
  by simp

theorem update_after_removal_recreates_witness:
  "files (snd (deleteService calm ''B'' [service_B] first_cycle)) (historyFile ''B'') = None
   \<and> serviceStatuses
       (fst (updateService shift_cipher calm 31050
               \<lparr>name = ''B'', url = ''http://b.example/health'', status = Up,
                statusCode = Some 200, responseTime = Some 42,
                lastChecked = Some 31042, error = None\<rparr>
               (snd (deleteService calm ''B'' [service_B] first_cycle)))) ''B''
       = Some \<lparr>name = ''B'', url = ''http://b.example/health'', status = Up,
                statusCode = Some 200, responseTime = Some 42,
                lastChecked = Some 31042, error = None\<rparr>"
proof -
  let ?r = "\<lparr>name = ''B'', url = ''http://b.example/health'', status = Up,
        statusCode = Some 200, responseTime = Some 42,
        lastChecked = Some 31042, error = None\<rparr> :: check_result"
  have d: "deleteService calm (name ?r) [service_B] first_cycle
             = (Inr 204, snd (deleteService calm ''B'' [service_B] first_cycle))"
    by (simp add: deleteService_B)
  have u: "unlinks calm (historyFile (name ?r))" by (simp add: calm_fields)
  have o: "ordinary (name ?r)" using ordinary_B by simp
  have w: "writes calm (historyFile (name ?r))" by (simp add: calm_fields)
  show ?thesis
    using update_after_removal_recreates [OF d u o w, of shift_cipher 31050]
    by simp
qed

section \<open>Overlap of cycles\<close>

lemma updateAll_fanOuts:
  "fanOuts (fst (updateAll k env clock i rs st)) = fanOuts st"
proof (induction rs arbitrary: i st)
  case Nil
  show ?case by simp
next
  case (Cons r rs)
  show ?case
    using Cons.IH [of "Suc i" "fst (updateService k env (clock i) r st)"]
          updateService_fanOuts [of k env "clock i" r st]
    by (auto split: prod.splits option.splits)
qed

lemma beginCycle_times:
  "fanOuts ((beginCycle services ^^ n) st) = fanOuts st @ replicate n services"
proof (induction n)
  case 0
  show ?case by simp
next
  case (Suc n)
  have "fanOuts (beginCycle services ((beginCycle services ^^ n) st))
          = fanOuts ((beginCycle services ^^ n) st) @ [services]"
    by (simp add: beginCycle_def)
  then show ?case
    unfolding funpow.simps comp_def Suc by (simp add: replicate_append_same)
qed

text \<open>
  C5. The claim: a tick that fires while a cycle is still running is skipped or queued,
  and a second concurrent fan-out is never started. \<^verbatim>\<open>checkAllServices\<close> tests nothing
  before it starts its probes. The service list holds a service that is given 60 seconds
  to answer and does not. A first tick starts a fan-out; the tick 30 seconds later
  fires before that probe has settled and starts another fan-out, and both are under
  way.
\<close>

theorem second_tick_starts_second_fan_out:
  "fanOuts (beginCycle [service_slow] (process_start [service_slow] None)) = [[service_slow]]
   \<and> fanOuts (beginCycle [service_slow]
                (beginCycle [service_slow] (process_start [service_slow] None)))
       = [[service_slow], [service_slow]]"
  by (simp add: beginCycle_def process_start_def)

text \<open>
  C5, as the code has it. Cycles may overlap. Every call of \<^verbatim>\<open>checkAllServices\<close>,
  whether from a tick of the timer or from a request to check now, starts a fan-out
  over the service list it has loaded, whatever calls are still under way: none is
  skipped and none is queued, so that \<open>n\<close> calls during which no cycle ends add
  \<open>n\<close> concurrent fan-outs. It changes nothing else. When the probes of one of the
  calls under way have settled, that call runs its update loop and is no longer under
  way, and the others still are.
\<close>

theorem cycles_overlap:
  "fanOuts (beginCycle services st) = fanOuts st @ [services]
   \<and> length (fanOuts ((beginCycle services ^^ n) st)) = length (fanOuts st) + n
   \<and> serviceStatuses (beginCycle services st) = serviceStatuses st
   \<and> serviceHistories (beginCycle services st) = serviceHistories st
   \<and> files (beginCycle services st) = files st
   \<and> (i < length (fanOuts st) \<longrightarrow>
        fanOuts (fst (endCycle k env clock probes i st))
          = take i (fanOuts st) @ drop (Suc i) (fanOuts st))"
  by (simp add: beginCycle_times) (simp add: beginCycle_def endCycle_def Let_def updateAll_fanOuts)

theorem cycles_overlap_witness:
  "fanOuts (fst (endCycle shift_cipher calm (\<lambda>i. 60050) (probe_hangs 0) 0
                   (beginCycle [service_slow]
                      (beginCycle [service_slow] (process_start [service_slow] None)))))
     = [[service_slow]]"
proof -
  have f: "fanOuts (beginCycle [service_slow]
                      (beginCycle [service_slow] (process_start [service_slow] None)))
             = [[service_slow], [service_slow]]"
    by (simp add: beginCycle_def process_start_def)
  show ?thesis
    using cycles_overlap
            [of "[service_slow]" "beginCycle [service_slow]
                      (beginCycle [service_slow] (process_start [service_slow] None))"
                0 0 shift_cipher calm "\<lambda>i. 60050" "probe_hangs 0"]
    by (simp add: f)
qed

section \<open>Isolation of the channels\<close>

lemma try_send_effect: "try_send ch n outcome = (fst (try_send ch n outcome), None)"
  by (cases outcome) (simp_all add: try_send_def)

lemma mail_effect:
  "email_enabled n \<longrightarrow> transporter st \<Longrightarrow>
   (if email_enabled n then sendEmailNotification send st r n else ([], None))
     = (if email_enabled n then fst (try_send Mail (name r) (send Mail)) else [], None)"
  using try_send_effect [of Mail "name r" "send Mail"]
  by (simp add: sendEmailNotification_def)

lemma teams_effect:
  "(if teams_enabled n then sendTeamsNotification send st r n else ([], None))
     = (if teams_enabled n \<and> teams_webhookUrl n \<noteq> []
        then fst (try_send Teams (name r) (send Teams)) else [], None)"
  using try_send_effect [of Teams "name r" "send Teams"]
  by (simp add: sendTeamsNotification_def)

lemma sms_effect:
  "sms_enabled n \<longrightarrow> twilioClient st \<Longrightarrow>
   (if sms_enabled n then sendSmsNotification send st r n else ([], None))
     = (if sms_enabled n then fst (try_send Sms (name r) (send Sms)) else [], None)"
  using try_send_effect [of Sms "name r" "send Sms"]
  by (simp add: sendSmsNotification_def)

lemma iphone_effect:
  "(if iphone_enabled n then sendIphoneNotification send st r n else ([], None))
     = (if iphone_enabled n \<and> iphone_webhookUrl n \<noteq> []
        then fst (try_send Iphone (name r) (send Iphone)) else [], None)"
  using try_send_effect [of Iphone "name r" "send Iphone"]
  by (simp add: sendIphoneNotification_def)

lemma sendNotifications_isolated:
  assumes "loadedNotifications k st = Some n"
      and "email_enabled n \<longrightarrow> transporter st"
      and "sms_enabled n \<longrightarrow> twilioClient st"
      and "prev \<noteq> status r"
  shows "sendNotifications k send st r prev
           = (DispatchCalled (name r) prev (status r)
             # (if email_enabled n then fst (try_send Mail (name r) (send Mail)) else [])
             @ (if teams_enabled n \<and> teams_webhookUrl n \<noteq> []
                then fst (try_send Teams (name r) (send Teams)) else [])
             @ (if sms_enabled n then fst (try_send Sms (name r) (send Sms)) else [])
             @ (if iphone_enabled n \<and> iphone_webhookUrl n \<noteq> []
                then fst (try_send Iphone (name r) (send Iphone)) else []), None)"
  unfolding sendNotifications_def assms(1) option.case
    mail_effect [OF assms(2)] teams_effect sms_effect [OF assms(3)] iphone_effect
  using assms(4) by (simp only: then_do.simps if_False append_Cons append_Nil)

text \<open>
  C9. The claim: whenever a send fails, the failure is caught, the channels after it
  are still attempted, and nothing leaves the dispatcher. Each send is indeed inside a
  \<^verbatim>\<open>try\<close>, and the dispatcher does isolate the channels when the mail transporter
  and the SMS client exist (\<open>sendNotifications_isolated\<close>). But the guards
  \<^verbatim>\<open>if (!transporter)\<close> and \<^verbatim>\<open>if (!twilioClient)\<close> stand before the \<^verbatim>\<open>try\<close> and
  read variables that exist only once \<^verbatim>\<open>initializeNotifications\<close> has assigned them.
  Here the mail server refuses the connection, which is caught; SMS is enabled
  without its account identifier, so that no client was ever created, and the guard
  throws; the device webhook, enabled and complete, is never attempted.
\<close>

theorem dispatch_aborts_at_missing_client:
  "sendNotifications shift_cipher mail_unreachable
     (initializeNotifications shift_cipher
        (process_start [service_B] (Some settings_sms_incomplete)))
     (checkService service_B (axios_get (TransportFailure ''timeout of 5000ms exceeded''))
        1000 6000 6000)
     Up
   = ([DispatchCalled ''B'' Up Down, SendFailed Mail ''B'' ''connect ECONNREFUSED''],
      Some (ReferenceError ''twilioClient is not defined''))"
proof -
  have l: "loadNotifications shift_cipher (Some settings_sms_incomplete) = settings_sms_incomplete"
    by (simp add: loadNotifications_def decrypt_field_def decrypt_def settings_sms_incomplete_def)
  have f: "files (process_start [service_B] (Some settings_sms_incomplete)) NOTIFICATIONS_FILE
             = Some (SettingsJson settings_sms_incomplete)"
    by (simp add: process_start_def NOTIFICATIONS_FILE_def SERVICES_FILE_def)
  have ld: "loadedNotifications shift_cipher
              (process_start [service_B] (Some settings_sms_incomplete))
            = Some settings_sms_incomplete"
    by (simp add: loadedNotifications_def f l)
  have i: "initializeNotifications shift_cipher
             (process_start [service_B] (Some settings_sms_incomplete))
           = (process_start [service_B] (Some settings_sms_incomplete))\<lparr>transporter := True\<rparr>"
    unfolding initializeNotifications_def ld
    by (simp add: settings_sms_incomplete_def process_start_def)
  have ld': "loadedNotifications shift_cipher
              ((process_start [service_B] (Some settings_sms_incomplete))\<lparr>transporter := True\<rparr>)
            = Some settings_sms_incomplete"
    using ld by (simp add: loadedNotifications_def)
  have r: "checkService service_B (axios_get (TransportFailure ''timeout of 5000ms exceeded''))
             1000 6000 6000
           = \<lparr>name = ''B'', url = ''http://b.example/health'', status = Down,
              statusCode = None, responseTime = Some 5000, lastChecked = Some 6000,
              error = Some ''timeout of 5000ms exceeded''\<rparr>"
    by (simp add: checkService_def axios_get_def service_B_def or_null_def)
  show ?thesis
    unfolding i r sendNotifications_def ld' option.case
    by (simp add: settings_sms_incomplete_def sendEmailNotification_def
          sendSmsNotification_def sendTeamsNotification_def sendIphoneNotification_def
          try_send_def mail_unreachable_def process_start_def)
qed


end
